theory Spec2Isabelle
  imports
    Complex_Main
    "HOL-Library.Sublist"
    "HOL-Library.Char_ord"
    "HOL-Library.List_Lexorder"
    "HOL-Library.Product_Lexorder"
    "HOL-Library.Multiset"
begin

section \<open>The accident preprocessing pipeline of \<^verbatim>\<open>scripts/preprocess_data.py\<close>\<close>

text \<open>
  The script loads one CSV file into a pandas data frame, derives time
  features, imputes medians, maps the weather text to a category, groups the
  rows into six summary tables and writes everything back as CSV. The embedding
  follows the script function by function. What pandas does inside a call the
  script makes (group, median, sample, merge) is written out as a HOL function
  of the same name, after the behaviour pandas documents for the arguments the
  script passes.
\<close>

subsection \<open>Cells, rows and data frames\<close>

text \<open>
  A cell is what pandas holds at one position of a column: a missing value
  (\<open>NaN\<close>, also standing for \<open>NaT\<close> and \<open>None\<close>), a number, a text, or a
  timestamp in nanoseconds since 1970-01-01 (the \<open>int64\<close> that
  \<open>datetime64[ns]\<close> stores). Numbers are rationals: the script's arithmetic is
  the median, the mean and a division by 60, taken here without rounding, and
  the infinite values of a float column are not represented.
\<close>

datatype cell = NaN | Num rat | Str string | Time int

datatype error =
    FileNotFoundError string
  | KeyError string
  | ValueError
  | TypeError
  | AttributeError
  | IndexError

type_synonym row = "string \<Rightarrow> cell"

record dataframe =
  columns :: "string list"
  rows :: "row list"

text \<open>
  Python code that raises is a function into \<open>error + 'a\<close>; \<open>seq\<close> runs the
  next statement on the result of the previous one and passes an exception on.
\<close>

definition seq :: "error + 'a \<Rightarrow> ('a \<Rightarrow> error + 'b) \<Rightarrow> error + 'b" where
  "seq m f = (case m of Inl e \<Rightarrow> Inl e | Inr x \<Rightarrow> f x)"

fun traverse :: "('a \<Rightarrow> error + 'b) \<Rightarrow> 'a list \<Rightarrow> error + 'b list" where
  "traverse f [] = Inr []"
| "traverse f (x # xs) = seq (f x) (\<lambda>y. seq (traverse f xs) (\<lambda>ys. Inr (y # ys)))"

text \<open>
  \<open>col in df.columns\<close>, \<open>df[col]\<close> (a \<open>KeyError\<close> on a name that is not a
  column) and \<open>df[col] = values\<close>, which replaces the column or appends it as
  the last one. \<open>len(df)\<close> is \<open>length (rows df)\<close>.
\<close>

definition cells :: "dataframe \<Rightarrow> string \<Rightarrow> cell list" where
  "cells df col = map (\<lambda>r. r col) (rows df)"

definition column :: "dataframe \<Rightarrow> string \<Rightarrow> error + cell list" where
  "column df col = (if col \<in> set (columns df) then Inr (cells df col) else Inl (KeyError col))"

definition assign :: "dataframe \<Rightarrow> string \<Rightarrow> cell list \<Rightarrow> dataframe" where
  "assign df col vs =
    \<lparr>columns = (if col \<in> set (columns df) then columns df else columns df @ [col]),
     rows = map (\<lambda>(r, v). r(col := v)) (zip (rows df) vs)\<rparr>"

text \<open>\<open>pd.DataFrame()\<close> and the property \<open>DataFrame.empty\<close>.\<close>

definition DataFrame :: dataframe where
  "DataFrame = \<lparr>columns = [], rows = []\<rparr>"

definition df_empty :: "dataframe \<Rightarrow> bool" where
  "df_empty df = (columns df = [] \<or> rows df = [])"

text \<open>\<open>pd.isna\<close> on a scalar.\<close>

fun isna :: "cell \<Rightarrow> bool" where
  "isna NaN = True"
| "isna _ = False"

subsection \<open>Timestamps\<close>

text \<open>
  \<open>pd.to_datetime\<close> on a column. The parser of pandas is the parameter
  \<open>parse\<close>, and it works on the column as a whole: it settles on one format
  from the first values and rejects the column (\<open>ValueError\<close>) when a value does
  not fit, so a column of values that each parse alone may still be rejected.
  For a column it accepts, it gives by position the nanoseconds since the epoch,
  or nothing where the result is \<open>NaT\<close>.
\<close>

type_synonym parser = "cell list \<Rightarrow> (nat \<Rightarrow> int option) option"

definition to_datetime :: "parser \<Rightarrow> cell list \<Rightarrow> error + cell list" where
  "to_datetime parse cs =
    (case parse cs of
       None \<Rightarrow> Inl ValueError
     | Some ts \<Rightarrow> Inr (map (\<lambda>i. case ts i of None \<Rightarrow> NaN | Some t \<Rightarrow> Time t) [0..<length cs]))"

text \<open>
  The fields of a timestamp in the proleptic Gregorian calendar: the day number
  is split into year, month and day by the usual era computation (400 years
  are 146097 days, with the year starting in March).
\<close>

definition ns_per_day :: int where
  "ns_per_day = 86400 * 1000000000"

definition civil :: "int \<Rightarrow> int \<times> int \<times> int" where
  "civil t =
    (let z = t div ns_per_day + 719468;
         era = z div 146097;
         doe = z mod 146097;
         yoe = (doe - doe div 1460 + doe div 36524 - doe div 146096) div 365;
         doy = doe - (365 * yoe + yoe div 4 - yoe div 100);
         mp = (5 * doy + 2) div 153;
         d = doy - (153 * mp + 2) div 5 + 1;
         m = (if mp < 10 then mp + 3 else mp - 9);
         y = yoe + era * 400 + (if m \<le> 2 then 1 else 0)
     in (y, m, d))"

definition year :: "int \<Rightarrow> int" where
  "year t = fst (civil t)"

definition month :: "int \<Rightarrow> int" where
  "month t = fst (snd (civil t))"

definition day :: "int \<Rightarrow> int" where
  "day t = snd (snd (civil t))"

definition hour :: "int \<Rightarrow> int" where
  "hour t = (t mod ns_per_day) div (3600 * 1000000000)"

text \<open>
  \<open>dayofweek\<close> as pandas computes it from year, month and day (Sakamoto's
  method, then shifted so that Monday is 0). The result is a remainder modulo
  7 whatever the table lookup gives.
\<close>

definition sakamoto_arr :: "int list" where
  "sakamoto_arr = [0, 3, 2, 5, 0, 3, 5, 1, 4, 6, 2, 4]"

definition dayofweek :: "int \<Rightarrow> int" where
  "dayofweek t =
    (let (y0, m, d) = civil t;
         y = (if m < 3 then y0 - 1 else y0);
         wd = (y + y div 4 - y div 100 + y div 400 + sakamoto_arr ! nat (m - 1) + d) mod 7
     in (wd + 6) mod 7)"

text \<open>
  The accessor \<open>.dt\<close> exists on a datetime column only
  (\<open>AttributeError\<close> otherwise); a field of \<open>NaT\<close> is \<open>NaN\<close>.
\<close>

fun dt1 :: "(int \<Rightarrow> int) \<Rightarrow> cell \<Rightarrow> error + cell" where
  "dt1 field NaN = Inr NaN"
| "dt1 field (Time t) = Inr (Num (of_int (field t)))"
| "dt1 field (Num _) = Inl AttributeError"
| "dt1 field (Str _) = Inl AttributeError"

definition dt :: "(int \<Rightarrow> int) \<Rightarrow> cell list \<Rightarrow> error + cell list" where
  "dt field cs = traverse (dt1 field) cs"

text \<open>\<open>(end - start).dt.total_seconds() / 60\<close> for one row.\<close>

fun duration_minutes :: "cell \<Rightarrow> cell \<Rightarrow> error + cell" where
  "duration_minutes (Time e) (Time s) = Inr (Num (of_int (e - s) / 1000000000 / 60))"
| "duration_minutes NaN (Time _) = Inr NaN"
| "duration_minutes (Time _) NaN = Inr NaN"
| "duration_minutes NaN NaN = Inr NaN"
| "duration_minutes _ _ = Inl TypeError"

text \<open>The lambda \<open>1 if x >= 5 else 0\<close>; \<open>NaN >= 5\<close> is false.\<close>

fun weekend_flag :: "cell \<Rightarrow> error + cell" where
  "weekend_flag (Num x) = Inr (Num (if x \<ge> 5 then 1 else 0))"
| "weekend_flag NaN = Inr (Num 0)"
| "weekend_flag (Str _) = Inl TypeError"
| "weekend_flag (Time _) = Inl TypeError"

subsection \<open>Median imputation\<close>

text \<open>
  \<open>Series.median\<close> skips the missing values, sorts the rest and takes the
  middle one, or the mean of the two middle ones; of no value at all it is
  \<open>NaN\<close>. A column holding text has no median (\<open>TypeError\<close>).
\<close>

fun non_numeric :: "cell \<Rightarrow> bool" where
  "non_numeric (Str _) = True"
| "non_numeric (Time _) = True"
| "non_numeric _ = False"

fun nums :: "cell list \<Rightarrow> rat list" where
  "nums [] = []"
| "nums (Num x # cs) = x # nums cs"
| "nums (_ # cs) = nums cs"

definition middle :: "rat list \<Rightarrow> cell" where
  "middle xs =
    (let n = length xs in
     if n = 0 then NaN
     else if odd n then Num (xs ! (n div 2))
     else Num ((xs ! (n div 2 - 1) + xs ! (n div 2)) / 2))"

definition median :: "cell list \<Rightarrow> error + cell" where
  "median cs = (if list_ex non_numeric cs then Inl TypeError else Inr (middle (sort (nums cs))))"

definition fillna :: "cell \<Rightarrow> cell list \<Rightarrow> cell list" where
  "fillna v cs = map (\<lambda>c. if isna c then v else c) cs"

text \<open>
  The list \<open>numerical_cols\<close> and the loop over it:
  \<open>df[col] = df[col].fillna(df[col].median())\<close> for the names that are columns.
\<close>

definition numerical_cols :: "dataframe \<Rightarrow> string list" where
  "numerical_cols df =
    [''Severity'', ''Start_Lat'', ''Start_Lng''] @
    (if ''Temperature(F)'' \<in> set (columns df) then [''Temperature(F)'', ''Visibility(mi)'']
     else [])"

fun impute :: "string list \<Rightarrow> dataframe \<Rightarrow> error + dataframe" where
  "impute [] df = Inr df"
| "impute (col # cols) df =
    (if col \<in> set (columns df)
     then seq (column df col) (\<lambda>cs.
          seq (median cs) (\<lambda>m.
          impute cols (assign df col (fillna m cs))))
     else impute cols df)"

subsection \<open>The weather keyword table and \<open>map_weather\<close>\<close>

text \<open>
  \<open>weather_mapping\<close> is a dict literal; a Python dict iterates in insertion
  order, so it is an association list here.
\<close>

definition weather_mapping :: "(string \<times> string list) list" where
  "weather_mapping =
    [(''clear'', [''clear'', ''fair'', ''sunny'']),
     (''cloudy'', [''cloudy'', ''overcast'', ''partly cloudy'']),
     (''rain'', [''rain'', ''drizzle'', ''shower'']),
     (''snow'', [''snow'', ''sleet'', ''ice'', ''freezing'']),
     (''fog'', [''fog'', ''haze'', ''smoke'']),
     (''thunderstorm'', [''thunderstorm'', ''storm'']),
     (''windy'', [''windy'', ''breezy''])]"

text \<open>
  \<open>str.lower\<close>, on the ASCII letters. A \<open>char\<close> is a byte, so text outside
  ASCII is a UTF-8 byte sequence that this function leaves as it is.
\<close>

definition lower_char :: "char \<Rightarrow> char" where
  "lower_char c =
    (case map_of (zip ''ABCDEFGHIJKLMNOPQRSTUVWXYZ'' ''abcdefghijklmnopqrstuvwxyz'') c of
       Some l \<Rightarrow> l
     | None \<Rightarrow> c)"

definition lower :: "string \<Rightarrow> string" where
  "lower s = map lower_char s"

text \<open>
  The loop \<open>for category, terms in weather_mapping.items()\<close> with its
  \<open>any(term in condition for term in terms)\<close>; \<open>term in condition\<close> on two
  strings is the contiguous-substring test \<^const>\<open>sublist\<close>.
\<close>

fun scan_categories :: "(string \<times> string list) list \<Rightarrow> string \<Rightarrow> string" where
  "scan_categories [] condition = ''other''"
| "scan_categories ((category, terms) # rest) condition =
    (if list_ex (\<lambda>term. sublist term condition) terms then category
     else scan_categories rest condition)"

text \<open>
  The words of the specification for one table entry: one of the keywords of
  the category occurs in the text as a substring.
\<close>

definition keyword_occurs :: "string \<times> string list \<Rightarrow> string \<Rightarrow> bool" where
  "keyword_occurs entry s = (\<exists>t \<in> set (snd entry). \<exists>before after. s = before @ t @ after)"

text \<open>
  \<open>map_weather\<close>. A number or a timestamp has no \<open>lower\<close> method: Python
  raises \<open>AttributeError\<close> there.
\<close>

fun map_weather :: "cell \<Rightarrow> error + string" where
  "map_weather NaN = Inr ''unknown''"
| "map_weather (Str condition) = Inr (scan_categories weather_mapping (lower condition))"
| "map_weather (Num _) = Inl AttributeError"
| "map_weather (Time _) = Inl AttributeError"

subsection \<open>\<open>preprocess_data\<close>: the transformer\<close>

text \<open>\<open>df[target] = f(df[source])\<close>, the shape of most lines of the function.\<close>

definition derive ::
  "string \<Rightarrow> string \<Rightarrow> (cell list \<Rightarrow> error + cell list) \<Rightarrow> dataframe \<Rightarrow> error + dataframe" where
  "derive target source f df =
    seq (column df source) (\<lambda>cs.
    seq (f cs) (\<lambda>vs.
    Inr (assign df target vs)))"

text \<open>Lines 61 to 65: the timestamps and, with an end time, the duration.\<close>

definition convert_timestamps :: "parser \<Rightarrow> dataframe \<Rightarrow> error + dataframe" where
  "convert_timestamps parse df =
    seq (derive ''Start_Time'' ''Start_Time'' (to_datetime parse) df) (\<lambda>df.
    if ''End_Time'' \<in> set (columns df)
    then seq (derive ''End_Time'' ''End_Time'' (to_datetime parse) df) (\<lambda>df.
         seq (column df ''End_Time'') (\<lambda>es.
         seq (column df ''Start_Time'') (\<lambda>ss.
         seq (traverse (\<lambda>(e, s). duration_minutes e s) (zip es ss)) (\<lambda>ds.
         Inr (assign df ''Duration_Minutes'' ds)))))
    else Inr df)"

text \<open>Lines 68 to 73: the time features.\<close>

definition extract_time_features :: "dataframe \<Rightarrow> error + dataframe" where
  "extract_time_features df =
    seq (derive ''Year'' ''Start_Time'' (dt year) df) (\<lambda>df.
    seq (derive ''Month'' ''Start_Time'' (dt month) df) (\<lambda>df.
    seq (derive ''Day'' ''Start_Time'' (dt day) df) (\<lambda>df.
    seq (derive ''Hour'' ''Start_Time'' (dt hour) df) (\<lambda>df.
    seq (derive ''DayOfWeek'' ''Start_Time'' (dt dayofweek) df) (\<lambda>df.
    derive ''Weekend'' ''DayOfWeek'' (traverse weekend_flag) df)))))"

text \<open>Lines 85 to 106: the weather category, when there is a weather column.\<close>

definition categorize_weather :: "dataframe \<Rightarrow> error + dataframe" where
  "categorize_weather df =
    (if ''Weather_Condition'' \<in> set (columns df)
     then derive ''Weather_Category'' ''Weather_Condition''
            (\<lambda>cs. seq (traverse map_weather cs) (\<lambda>ws. Inr (map Str ws))) df
     else Inr df)"

text \<open>Lines 56 to 106 together: the enriched table.\<close>

definition enrich :: "parser \<Rightarrow> dataframe \<Rightarrow> error + dataframe" where
  "enrich parse df =
    seq (convert_timestamps parse df) (\<lambda>df.
    seq (extract_time_features df) (\<lambda>df.
    seq (impute (numerical_cols df) df) (\<lambda>df.
    categorize_weather df)))"

subsection \<open>\<open>preprocess_data\<close>: the aggregator\<close>

text \<open>
  \<open>df.groupby(by)\<close> with the defaults of pandas: the group keys are the
  distinct key values of the rows, those with a missing key column left out
  (\<open>dropna=True\<close>), in ascending order (\<open>sort=True\<close>). Cells are ordered
  through \<open>cell_key\<close>: numbers by value, texts lexicographically by code point.
\<close>

fun cell_key :: "cell \<Rightarrow> nat \<times> rat \<times> string \<times> int" where
  "cell_key NaN = (0, 0, [], 0)"
| "cell_key (Num x) = (1, x, [], 0)"
| "cell_key (Str s) = (2, 0, s, 0)"
| "cell_key (Time t) = (3, 0, [], t)"

definition key_of :: "string list \<Rightarrow> row \<Rightarrow> cell list" where
  "key_of by r = map r by"

definition group_keys :: "string list \<Rightarrow> row list \<Rightarrow> cell list list" where
  "group_keys by rs =
    sort_key (map cell_key) (remdups (filter (\<lambda>k. \<not> list_ex isna k) (map (key_of by) rs)))"

definition group_rows :: "string list \<Rightarrow> row list \<Rightarrow> cell list \<Rightarrow> row list" where
  "group_rows by rs k = filter (\<lambda>r. key_of by r = k) rs"

fun require_columns :: "dataframe \<Rightarrow> string list \<Rightarrow> error + unit" where
  "require_columns df [] = Inr ()"
| "require_columns df (c # cs) =
    (if c \<in> set (columns df) then require_columns df cs else Inl (KeyError c))"

text \<open>The row of a result table that carries the key of its group.\<close>

definition key_row :: "string list \<Rightarrow> cell list \<Rightarrow> row" where
  "key_row by k = fold (\<lambda>(c, v) r. r(c := v)) (zip by k) (\<lambda>_. NaN)"

text \<open>\<open>df.groupby(by).size().reset_index(name=name)\<close>.\<close>

definition groupby_size :: "string list \<Rightarrow> string \<Rightarrow> dataframe \<Rightarrow> error + dataframe" where
  "groupby_size by name df =
    seq (require_columns df by) (\<lambda>_.
    Inr \<lparr>columns = by @ [name],
         rows = map (\<lambda>k. (key_row by k)(name := Num (of_nat (length (group_rows by (rows df) k)))))
                  (group_keys by (rows df))\<rparr>)"

text \<open>
  The mean of a group skips the missing values and is \<open>NaN\<close> when nothing is
  left; \<open>count\<close> counts the values that are not missing.
\<close>

definition mean :: "cell list \<Rightarrow> error + cell" where
  "mean cs =
    (if list_ex non_numeric cs then Inl TypeError
     else Inr (if nums cs = [] then NaN else Num (sum_list (nums cs) / of_nat (length (nums cs)))))"

definition count_notna :: "cell list \<Rightarrow> cell" where
  "count_notna cs = Num (of_nat (length (filter (\<lambda>c. \<not> isna c) cs)))"

text \<open>\<open>df.groupby(by)[col].mean().reset_index(name=name)\<close>.\<close>

definition groupby_mean ::
  "string list \<Rightarrow> string \<Rightarrow> string \<Rightarrow> dataframe \<Rightarrow> error + dataframe" where
  "groupby_mean by col name df =
    seq (require_columns df by) (\<lambda>_.
    seq (column df col) (\<lambda>_.
    seq (traverse (\<lambda>k. seq (mean (map (\<lambda>r. r col) (group_rows by (rows df) k)))
                         (\<lambda>m. Inr ((key_row by k)(name := m))))
                  (group_keys by (rows df))) (\<lambda>rs.
    Inr \<lparr>columns = by @ [name], rows = rs\<rparr>)))"

text \<open>
  \<open>pd.merge(left, right, on=key)\<close>, the inner join in the order of the left
  rows. The two tables the script merges share no column but the key.
\<close>

definition merge :: "dataframe \<Rightarrow> dataframe \<Rightarrow> string \<Rightarrow> error + dataframe" where
  "merge left right on =
    (if on \<in> set (columns left) \<and> on \<in> set (columns right)
     then Inr \<lparr>columns = columns left @ filter (\<lambda>c. c \<noteq> on) (columns right),
               rows = concat (map (\<lambda>a. map (\<lambda>b c. if c \<in> set (columns left) then a c else b c)
                                            (filter (\<lambda>b. b on = a on) (rows right)))
                                  (rows left))\<rparr>
     else Inl (KeyError on))"

text \<open>
  \<open>df.groupby('Weather_Category').agg({'ID': 'count', 'Severity': 'mean'}).reset_index()\<close>
  with the three column names the script then gives the result.
\<close>

definition weather_agg :: "dataframe \<Rightarrow> error + dataframe" where
  "weather_agg df =
    seq (require_columns df [''Weather_Category'']) (\<lambda>_.
    seq (column df ''ID'') (\<lambda>_.
    seq (column df ''Severity'') (\<lambda>_.
    seq (traverse (\<lambda>k. let g = group_rows [''Weather_Category''] (rows df) k in
                       seq (mean (map (\<lambda>r. r ''Severity'') g)) (\<lambda>m.
                       Inr ((key_row [''Weather_Category''] k)
                              (''Accident_Count'' := count_notna (map (\<lambda>r. r ''ID'') g),
                               ''Avg_Severity'' := m))))
                  (group_keys [''Weather_Category''] (rows df))) (\<lambda>rs.
    Inr \<lparr>columns = [''Weather_Category'', ''Accident_Count'', ''Avg_Severity''], rows = rs\<rparr>))))"

text \<open>The dict that \<open>weekday_data['DayOfWeek'].map\<close> looks the day up in.\<close>

definition day_names :: "(rat \<times> string) list" where
  "day_names =
    [(0, ''Monday''), (1, ''Tuesday''), (2, ''Wednesday''), (3, ''Thursday''),
     (4, ''Friday''), (5, ''Saturday''), (6, ''Sunday'')]"

fun day_name :: "cell \<Rightarrow> cell" where
  "day_name (Num x) = (case map_of day_names x of Some n \<Rightarrow> Str n | None \<Rightarrow> NaN)"
| "day_name _ = NaN"

text \<open>
  \<open>sort_values(col, ascending=False)\<close> and \<open>head(n)\<close>. Rows with equal
  values keep their order here; pandas does not promise an order among them.
\<close>

definition sort_values_desc :: "string \<Rightarrow> dataframe \<Rightarrow> error + dataframe" where
  "sort_values_desc col df =
    seq (column df col) (\<lambda>_.
    Inr \<lparr>columns = columns df, rows = rev (sort_key (\<lambda>r. cell_key (r col)) (rev (rows df)))\<rparr>)"

definition head :: "nat \<Rightarrow> dataframe \<Rightarrow> dataframe" where
  "head n df = \<lparr>columns = columns df, rows = take n (rows df)\<rparr>"

record datasets =
  main_data :: dataframe
  state_data :: dataframe
  time_data :: dataframe
  hour_data :: dataframe
  weekday_data :: dataframe
  weather_data :: dataframe
  city_data :: dataframe

text \<open>Lines 112 to 150.\<close>

definition aggregate :: "dataframe \<Rightarrow> error + datasets" where
  "aggregate df =
    seq (groupby_size [''State''] ''Accident_Count'' df) (\<lambda>state_counts.
    seq (groupby_mean [''State''] ''Severity'' ''Avg_Severity'' df) (\<lambda>state_severity.
    seq (merge state_counts state_severity ''State'') (\<lambda>state.
    seq (groupby_size [''Year'', ''Month''] ''Accident_Count'' df) (\<lambda>time.
    seq (groupby_size [''Hour''] ''Accident_Count'' df) (\<lambda>hour.
    seq (groupby_size [''DayOfWeek'', ''Weekend''] ''Accident_Count'' df) (\<lambda>weekday0.
    seq (derive ''DayName'' ''DayOfWeek'' (\<lambda>cs. Inr (map day_name cs)) weekday0) (\<lambda>weekday.
    seq (if ''Weather_Category'' \<in> set (columns df) then weather_agg df else Inr DataFrame)
        (\<lambda>weather.
    seq (if ''City'' \<in> set (columns df)
         then seq (groupby_size [''State'', ''City''] ''Accident_Count'' df) (\<lambda>city.
              seq (sort_values_desc ''Accident_Count'' city) (\<lambda>city.
              Inr (head 50 city)))
         else Inr DataFrame) (\<lambda>city.
    Inr \<lparr>main_data = df, state_data = state, time_data = time, hour_data = hour,
         weekday_data = weekday, weather_data = weather, city_data = city\<rparr>)))))))))"

definition preprocess_data :: "parser \<Rightarrow> dataframe \<Rightarrow> error + datasets" where
  "preprocess_data parse df = seq (enrich parse df) aggregate"

subsection \<open>Random samples\<close>

text \<open>
  \<open>DataFrame.sample\<close> draws row positions with \<open>choice(len(df), size,
  replace=False)\<close> of a generator and takes these rows. The generator is a new
  one seeded with \<open>random_state\<close> when the caller passes an integer, and the
  generator of the process, in whatever state it is, when the caller passes
  nothing. The drawing itself is numpy's: it is the parameter \<open>choice\<close>.
\<close>

datatype generator = RandomState nat | ProcessGenerator nat

definition resolve_random_state :: "nat \<Rightarrow> nat option \<Rightarrow> generator" where
  "resolve_random_state np_random random_state =
    (case random_state of Some seed \<Rightarrow> RandomState seed | None \<Rightarrow> ProcessGenerator np_random)"

definition take_rows :: "dataframe \<Rightarrow> nat list \<Rightarrow> error + dataframe" where
  "take_rows df locs =
    (if list_all (\<lambda>i. i < length (rows df)) locs
     then Inr \<lparr>columns = columns df, rows = map (\<lambda>i. rows df ! i) locs\<rparr>
     else Inl IndexError)"

definition sample_n ::
  "(generator \<Rightarrow> nat \<Rightarrow> nat \<Rightarrow> nat list) \<Rightarrow> nat \<Rightarrow> nat \<Rightarrow> nat option \<Rightarrow> dataframe
    \<Rightarrow> error + dataframe" where
  "sample_n choice np_random n random_state df =
    (if n > length (rows df) then Inl ValueError
     else take_rows df (choice (resolve_random_state np_random random_state) (length (rows df)) n))"

text \<open>\<open>round\<close> of Python: to the nearest integer, a half to the even one.\<close>

definition round_half_even :: "rat \<Rightarrow> int" where
  "round_half_even x =
    (let f = \<lfloor>x\<rfloor>; r = x - of_int f in
     if r < 1 / 2 then f else if r > 1 / 2 then f + 1 else if even f then f else f + 1)"

definition sample_frac ::
  "(generator \<Rightarrow> nat \<Rightarrow> nat \<Rightarrow> nat list) \<Rightarrow> nat \<Rightarrow> rat \<Rightarrow> nat option \<Rightarrow> dataframe
    \<Rightarrow> error + dataframe" where
  "sample_frac choice np_random fraction random_state df =
    sample_n choice np_random (nat (round_half_even (fraction * of_nat (length (rows df)))))
      random_state df"

text \<open>
  What the script relies on from \<open>choice\<close>: asked for \<open>k\<close> positions out of
  \<open>pop \<ge> k\<close>, it returns \<open>k\<close> different positions below \<open>pop\<close>.
\<close>

definition draws_without_replacement :: "(generator \<Rightarrow> nat \<Rightarrow> nat \<Rightarrow> nat list) \<Rightarrow> bool" where
  "draws_without_replacement choice =
    (\<forall>gen pop k. k \<le> pop \<longrightarrow>
       length (choice gen pop k) = k \<and> distinct (choice gen pop k) \<and>
       list_all (\<lambda>i. i < pop) (choice gen pop k))"

subsection \<open>\<open>load_raw_data\<close>\<close>

text \<open>
  A file on disk is its size in bytes and the table \<open>pd.read_csv\<close> reads from
  it; the file system maps a path to the file there, if any. The first
  \<open>read_csv\<close> of the function, with \<open>nrows=5\<close>, only fills two variables that
  are never read again, and the log lines change nothing: both are left out.
\<close>

record csv_file =
  st_size :: nat
  table :: dataframe

definition USER_PROVIDED_PATH :: string where
  "USER_PROVIDED_PATH =
    ''/Users/adityapatil/Desktop/US-Accidents-Visualization_Project/scripts/data/raw/US_Accidents_March23.csv''"

definition not_found_message :: string where
  "not_found_message =
    ''Dataset file not found: '' @ USER_PROVIDED_PATH @
    ''. Please manually download the dataset from Kaggle and place it in the specified path.''"

definition usecols :: "string list" where
  "usecols =
    [''ID'', ''Severity'', ''Start_Time'', ''End_Time'', ''Start_Lat'', ''Start_Lng'',
     ''City'', ''County'', ''State'', ''Temperature(F)'', ''Visibility(mi)'',
     ''Weather_Condition'', ''Sunrise_Sunset'']"

text \<open>
  \<open>pd.read_csv(path, usecols=cols)\<close> keeps the listed columns in the order of
  the file and rejects a name the file does not have.
\<close>

definition read_csv_usecols :: "csv_file \<Rightarrow> string list \<Rightarrow> error + dataframe" where
  "read_csv_usecols f cols =
    (if list_all (\<lambda>c. c \<in> set (columns (table f))) cols
     then Inr \<lparr>columns = filter (\<lambda>c. c \<in> set cols) (columns (table f)),
               rows = map (\<lambda>r c. if c \<in> set cols then r c else NaN) (rows (table f))\<rparr>
     else Inl ValueError)"

definition load_raw_data ::
  "(generator \<Rightarrow> nat \<Rightarrow> nat \<Rightarrow> nat list) \<Rightarrow> nat \<Rightarrow> (string \<rightharpoonup> csv_file) \<Rightarrow> error + dataframe" where
  "load_raw_data choice np_random fs =
    (case fs USER_PROVIDED_PATH of
       None \<Rightarrow> Inl (FileNotFoundError not_found_message)
     | Some f \<Rightarrow>
         if st_size f > 1000000000
         then seq (read_csv_usecols f usecols) (\<lambda>df.
              sample_frac choice np_random (1 / 10) (Some 42) df)
         else Inr (table f))"

subsection \<open>\<open>save_processed_data\<close> and \<open>main\<close>\<close>

text \<open>
  The written files: a map from the path of a CSV file to the table
  \<open>to_csv(path, index=False)\<close> wrote there.
\<close>

definition PROCESSED_DIR :: string where
  "PROCESSED_DIR = ''data/processed''"

definition to_csv :: "dataframe \<Rightarrow> string \<Rightarrow> (string \<rightharpoonup> dataframe) \<Rightarrow> (string \<rightharpoonup> dataframe)" where
  "to_csv df name out = out(PROCESSED_DIR @ ''/'' @ name \<mapsto> df)"

definition items :: "datasets \<Rightarrow> (string \<times> dataframe) list" where
  "items ds =
    [(''main_data'', main_data ds), (''state_data'', state_data ds),
     (''time_data'', time_data ds), (''hour_data'', hour_data ds),
     (''weekday_data'', weekday_data ds), (''weather_data'', weather_data ds),
     (''city_data'', city_data ds)]"

fun save_aggregates :: "(string \<times> dataframe) list \<Rightarrow> (string \<rightharpoonup> dataframe) \<Rightarrow> (string \<rightharpoonup> dataframe)" where
  "save_aggregates [] out = out"
| "save_aggregates ((name, data) # rest) out =
    (if name \<noteq> ''main_data'' \<and> \<not> df_empty data
     then save_aggregates rest (to_csv data (name @ ''.csv'') out)
     else save_aggregates rest out)"

definition save_processed_data ::
  "(generator \<Rightarrow> nat \<Rightarrow> nat \<Rightarrow> nat list) \<Rightarrow> nat \<Rightarrow> datasets \<Rightarrow> (string \<rightharpoonup> dataframe)
    \<Rightarrow> error + (string \<rightharpoonup> dataframe)" where
  "save_processed_data choice np_random ds out =
    seq (if length (rows (main_data ds)) > 100000
         then seq (sample_n choice np_random 100000 (Some 42) (main_data ds)) (\<lambda>sample_data.
              Inr (to_csv sample_data ''accidents_sample.csv'' out))
         else Inr (to_csv (main_data ds) ''accidents_processed.csv'' out)) (\<lambda>out.
    Inr (save_aggregates (items ds) out))"

text \<open>
  \<open>main\<close>: nothing catches an exception, so the first one ends the run and is
  the result. \<open>ensure_directories\<close> only creates the output directory.
\<close>

definition main ::
  "parser \<Rightarrow> (generator \<Rightarrow> nat \<Rightarrow> nat \<Rightarrow> nat list) \<Rightarrow> nat \<Rightarrow> (string \<rightharpoonup> csv_file)
    \<Rightarrow> (string \<rightharpoonup> dataframe) \<Rightarrow> error + (string \<rightharpoonup> dataframe)" where
  "main parse choice np_random fs out =
    seq (load_raw_data choice np_random fs) (\<lambda>raw_data.
    seq (preprocess_data parse raw_data) (\<lambda>processed_datasets.
    save_processed_data choice np_random processed_datasets out))"

subsection \<open>Notions used in the proofs\<close>

text \<open>
  A step of the transformer changes a table within a set \<open>T\<close> of column names:
  the number of rows stays, the cells outside \<open>T\<close> stay, no column is lost and
  only columns of \<open>T\<close> are added.
\<close>

definition frame :: "string set \<Rightarrow> dataframe \<Rightarrow> dataframe \<Rightarrow> bool" where
  "frame T df df' =
    (length (rows df') = length (rows df) \<and>
     (\<forall>c. c \<notin> T \<longrightarrow> cells df' c = cells df c) \<and>
     set (columns df) \<subseteq> set (columns df') \<and>
     set (columns df') \<subseteq> set (columns df) \<union> T)"

definition keeps_length :: "(cell list \<Rightarrow> error + cell list) \<Rightarrow> bool" where
  "keeps_length f = (\<forall>cs vs. f cs = Inr vs \<longrightarrow> length vs = length cs)"

text \<open>The sum of the column \<open>Accident_Count\<close> of a summary table.\<close>

definition accident_count_total :: "dataframe \<Rightarrow> rat" where
  "accident_count_total df = sum_list (nums (cells df ''Accident_Count''))"

text \<open>The column names the transformer writes to.\<close>

definition enrich_touched :: "string set" where
  "enrich_touched =
    {''Start_Time'', ''End_Time'', ''Duration_Minutes''} \<union>
    {''Year'', ''Month'', ''Day'', ''Hour'', ''DayOfWeek'', ''Weekend''} \<union>
    {''Severity'', ''Start_Lat'', ''Start_Lng'', ''Temperature(F)'', ''Visibility(mi)''} \<union>
    {''Weather_Category''}"

text \<open>
  Inputs on which no step raises. After the conversion a timestamp column
  holds timestamps and \<open>NaT\<close>. A weather column holds texts and missing
  values.
\<close>

fun is_datetime :: "cell \<Rightarrow> bool" where
  "is_datetime NaN = True"
| "is_datetime (Time t) = True"
| "is_datetime _ = False"

fun text_or_missing :: "cell \<Rightarrow> bool" where
  "text_or_missing NaN = True"
| "text_or_missing (Str s) = True"
| "text_or_missing _ = False"

text \<open>
  A table in the schema of the accident data: it has the columns \<open>ID\<close>,
  \<open>Severity\<close>, \<open>Start_Time\<close> and \<open>State\<close>, the parser accepts each of its
  timestamp columns as a whole, the columns that get a median hold numbers or
  nothing, and the weather column holds texts or nothing.
\<close>

definition well_formed :: "parser \<Rightarrow> dataframe \<Rightarrow> bool" where
  "well_formed parse df =
    (list_all (\<lambda>c. c \<in> set (columns df)) [''ID'', ''Severity'', ''Start_Time'', ''State''] \<and>
     \<not> Option.is_none (parse (cells df ''Start_Time'')) \<and>
     (''End_Time'' \<in> set (columns df) \<longrightarrow>
        \<not> Option.is_none (parse (cells df ''End_Time''))) \<and>
     list_all (\<lambda>col. col \<in> set (columns df) \<longrightarrow> \<not> list_ex non_numeric (cells df col))
       [''Severity'', ''Start_Lat'', ''Start_Lng'', ''Temperature(F)'', ''Visibility(mi)''] \<and>
     (''Weather_Condition'' \<in> set (columns df) \<longrightarrow>
        list_all text_or_missing (cells df ''Weather_Condition'')))"

subsection \<open>A small input\<close>

text \<open>
  Three accident records for the concrete instances below: the first starts
  on Monday 2016-02-08 and the other two on Saturday 2016-02-13; the second has
  no state, city, severity, temperature or weather, and no record has a
  visibility. \<open>example_parse\<close> accepts a column made of the four timestamps
  that occur, all in one format, and of missing values; it rejects every other
  column.
\<close>

definition example_timestamp :: "cell \<Rightarrow> int option" where
  "example_timestamp c =
    (if c = Str ''2016-02-08 05:46:00'' then Some 1454910360000000000
     else if c = Str ''2016-02-08 06:16:00'' then Some 1454912160000000000
     else if c = Str ''2016-02-13 05:46:00'' then Some 1455342360000000000
     else if c = Str ''2016-02-13 07:46:00'' then Some 1455349560000000000
     else None)"

definition example_parse :: parser where
  "example_parse cs =
    (if list_all (\<lambda>c. isna c \<or> \<not> Option.is_none (example_timestamp c)) cs
     then Some (\<lambda>i. example_timestamp (cs ! i))
     else None)"

definition example_rows :: "row list" where
  "example_rows =
    [(\<lambda>c. NaN)
       (''ID'' := Str ''A-1'', ''Severity'' := Num 2,
        ''Start_Time'' := Str ''2016-02-08 05:46:00'', ''End_Time'' := Str ''2016-02-08 06:16:00'',
        ''Start_Lat'' := Num 34, ''Start_Lng'' := Num (- 118),
        ''City'' := Str ''Los Angeles'', ''State'' := Str ''CA'',
        ''Temperature(F)'' := Num 50, ''Weather_Condition'' := Str ''Light Snow''),
     (\<lambda>c. NaN)
       (''ID'' := Str ''A-2'',
        ''Start_Time'' := Str ''2016-02-13 05:46:00'', ''End_Time'' := Str ''2016-02-13 07:46:00'',
        ''Start_Lat'' := Num 33, ''Start_Lng'' := Num (- 112)),
     (\<lambda>c. NaN)
       (''ID'' := Str ''A-3'', ''Severity'' := Num 3,
        ''Start_Time'' := Str ''2016-02-13 05:46:00'', ''End_Time'' := Str ''2016-02-13 07:46:00'',
        ''Start_Lat'' := Num 36, ''Start_Lng'' := Num (- 115),
        ''City'' := Str ''Los Angeles'', ''State'' := Str ''CA'',
        ''Temperature(F)'' := Num 60, ''Weather_Condition'' := Str ''Freezing Rain'')]"

definition example_table :: dataframe where
  "example_table =
    \<lparr>columns =
       [''ID'', ''Severity'', ''Start_Time'', ''End_Time'', ''Start_Lat'', ''Start_Lng'',
        ''City'', ''State'', ''Temperature(F)'', ''Visibility(mi)'', ''Weather_Condition''],
     rows = example_rows\<rparr>"

definition example_datasets :: datasets where
  "example_datasets = projr (preprocess_data example_parse example_table)"

text \<open>
  Two variants of the small input: only the records that have a state, and
  the same records in a file without a \<open>City\<close> column.
\<close>

definition example_table_with_states :: dataframe where
  "example_table_with_states =
    \<lparr>columns = columns example_table, rows = [example_rows ! 0, example_rows ! 2]\<rparr>"

definition example_table_without_city :: dataframe where
  "example_table_without_city =
    \<lparr>columns = remove1 ''City'' (columns example_table), rows = example_rows\<rparr>"

section \<open>Properties\<close>

subsection \<open>The weather category\<close>

lemma keyword_occurs_pair:
  "keyword_occurs (category, terms) s = list_ex (\<lambda>t. sublist t s) terms"
  by (simp add: keyword_occurs_def list_ex_iff sublist_def)

lemma scan_categories_first:
  "i < length tbl \<Longrightarrow> keyword_occurs (tbl ! i) s \<Longrightarrow>
   (\<forall>j<i. \<not> keyword_occurs (tbl ! j) s) \<Longrightarrow>
   scan_categories tbl s = fst (tbl ! i)"
proof (induction tbl arbitrary: i)
  case Nil
  then show ?case by simp
next
  case (Cons entry rest)
  obtain category terms where entry: "entry = (category, terms)"
    by (cases entry)
  show ?case
  proof (cases i)
    case 0
    with Cons.prems entry show ?thesis
      by (simp add: keyword_occurs_pair)
  next
    case (Suc k)
    from Cons.prems(3) Suc have head: "\<not> keyword_occurs entry s"
      by (metis nth_Cons_0 zero_less_Suc)
    from Cons.prems(3) Suc have "\<forall>j<k. \<not> keyword_occurs (rest ! j) s"
      by (metis Suc_less_eq nth_Cons_Suc)
    with Cons.IH [of k] Cons.prems(1,2) Suc
    have "scan_categories rest s = fst (rest ! k)"
      by simp
    with head entry Suc show ?thesis
      by (simp add: keyword_occurs_pair)
  qed
qed

lemma scan_categories_none:
  "(\<forall>i<length tbl. \<not> keyword_occurs (tbl ! i) s) \<Longrightarrow> scan_categories tbl s = ''other''"
proof (induction tbl)
  case Nil
  then show ?case by simp
next
  case (Cons entry rest)
  obtain category terms where entry: "entry = (category, terms)"
    by (cases entry)
  from Cons.prems have head: "\<not> keyword_occurs entry s"
    by (metis length_Cons nth_Cons_0 zero_less_Suc)
  from Cons.prems have "\<forall>i<length rest. \<not> keyword_occurs (rest ! i) s"
    by (metis Suc_less_eq length_Cons nth_Cons_Suc)
  with Cons.IH head entry show ?case
    by (simp add: keyword_occurs_pair)
qed

lemma map_weather_CLEAR: "map_weather (Str ''CLEAR'') = Inr ''clear''"
  by (simp add: weather_mapping_def lower_def lower_char_def sublist_code)

lemma map_weather_tornado: "map_weather (Str ''tornado'') = Inr ''other''"
  by (simp add: weather_mapping_def lower_def lower_char_def sublist_code)

text \<open>
  C1, as the code has it. For the input \<open>Freezing Rain\<close> the mapping returns
  \<open>rain\<close>, not \<open>snow\<close>: in table order \<open>rain\<close> comes before \<open>snow\<close>, and its
  keyword \<open>rain\<close> occurs in \<open>freezing rain\<close>, so \<open>rain\<close> is the first category
  with a matching keyword.
\<close>

theorem map_weather_freezing_rain:
  "map_weather (Str ''Freezing Rain'') = Inr ''rain'' \<and>
   find (\<lambda>(category, terms). list_ex (\<lambda>t. sublist t (lower ''Freezing Rain'')) terms)
     weather_mapping = Some (''rain'', [''rain'', ''drizzle'', ''shower''])"
  by (simp add: weather_mapping_def lower_def lower_char_def sublist_code)

text \<open>C1 as stated fails: the result for \<open>Freezing Rain\<close> is not \<open>snow\<close>.\<close>

theorem map_weather_freezing_rain_not_snow:
  "map_weather (Str ''Freezing Rain'') \<noteq> Inr ''snow''"
  by (simp add: weather_mapping_def lower_def lower_char_def sublist_code)

text \<open>
  C2. A missing input maps to \<open>unknown\<close>. A text is lowercased and the seven
  categories are tried in the order clear, cloudy, rain, snow, fog,
  thunderstorm, windy: the result is the category of the first table entry one
  of whose keywords occurs in the lowercased text, and \<open>other\<close> when no entry
  has such a keyword. \<open>CLEAR\<close> maps to \<open>clear\<close> and \<open>tornado\<close> to \<open>other\<close>.
\<close>

theorem map_weather_first_match:
  "map_weather NaN = Inr ''unknown'' \<and>
   map fst weather_mapping =
     [''clear'', ''cloudy'', ''rain'', ''snow'', ''fog'', ''thunderstorm'', ''windy''] \<and>
   (i < length weather_mapping \<and> keyword_occurs (weather_mapping ! i) (lower s) \<and>
    (\<forall>j<i. \<not> keyword_occurs (weather_mapping ! j) (lower s))
    \<longrightarrow> map_weather (Str s) = Inr (fst (weather_mapping ! i))) \<and>
   ((\<forall>k<length weather_mapping. \<not> keyword_occurs (weather_mapping ! k) (lower u))
    \<longrightarrow> map_weather (Str u) = Inr ''other'') \<and>
   map_weather (Str ''CLEAR'') = Inr ''clear'' \<and>
   map_weather (Str ''tornado'') = Inr ''other''"
proof -
  have order: "map fst weather_mapping =
     [''clear'', ''cloudy'', ''rain'', ''snow'', ''fog'', ''thunderstorm'', ''windy'']"
    by (simp add: weather_mapping_def)
  have first: "i < length weather_mapping \<and> keyword_occurs (weather_mapping ! i) (lower s) \<and>
    (\<forall>j<i. \<not> keyword_occurs (weather_mapping ! j) (lower s))
    \<longrightarrow> map_weather (Str s) = Inr (fst (weather_mapping ! i))"
    using scan_categories_first [of i weather_mapping "lower s"] by simp
  have none: "(\<forall>k<length weather_mapping. \<not> keyword_occurs (weather_mapping ! k) (lower u))
    \<longrightarrow> map_weather (Str u) = Inr ''other''"
    using scan_categories_none [of weather_mapping "lower u"] by simp
  show ?thesis
    using order first none map_weather_CLEAR map_weather_tornado by simp
qed

theorem map_weather_first_match_witness:
  "(3::nat) < length weather_mapping \<and>
   keyword_occurs (weather_mapping ! 3) (lower ''Light Snow'') \<and>
   \<not> (\<exists>j<3. keyword_occurs (weather_mapping ! j) (lower ''Light Snow'')) \<and>
   map_weather (Str ''Light Snow'') = Inr (fst (weather_mapping ! 3)) \<and>
   fst (weather_mapping ! 3) = ''snow'' \<and>
   \<not> (\<exists>k<length weather_mapping. keyword_occurs (weather_mapping ! k) (lower ''Dust Whirls'')) \<and>
   map_weather (Str ''Dust Whirls'') = Inr ''other''"
proof -
  have a: "(3::nat) < length weather_mapping"
    by (simp add: weather_mapping_def)
  have b: "keyword_occurs (weather_mapping ! 3) (lower ''Light Snow'')"
    by (simp add: weather_mapping_def keyword_occurs_pair lower_def lower_char_def sublist_code)
  have c: "\<forall>j<3. \<not> keyword_occurs (weather_mapping ! j) (lower ''Light Snow'')"
    by (simp add: weather_mapping_def keyword_occurs_pair lower_def lower_char_def sublist_code
        numeral_3_eq_3 All_less_Suc)
  have d: "\<forall>k<length weather_mapping.
      \<not> keyword_occurs (weather_mapping ! k) (lower ''Dust Whirls'')"
    by (simp add: weather_mapping_def keyword_occurs_pair lower_def lower_char_def sublist_code
        All_less_Suc)
  have e: "fst (weather_mapping ! 3) = ''snow''"
    by (simp add: weather_mapping_def)
  from a b c d e map_weather_first_match [of 3 "''Light Snow''" "''Dust Whirls''"]
  show ?thesis by blast
qed

subsection \<open>Running statements in sequence\<close>

lemma seq_Inr [simp]: "seq (Inr x) f = f x"
  by (simp add: seq_def)

lemma seq_Inl [simp]: "seq (Inl e) f = Inl e"
  by (simp add: seq_def)

lemma seq_Inr_iff: "(seq m f = Inr y) = (\<exists>x. m = Inr x \<and> f x = Inr y)"
  by (cases m) simp_all

lemma seq_Inl_iff: "(seq m f = Inl e) = (m = Inl e \<or> (\<exists>x. m = Inr x \<and> f x = Inl e))"
  by (cases m) simp_all

lemma traverse_Inr_iff: "(traverse f xs = Inr ys) = list_all2 (\<lambda>x y. f x = Inr y) xs ys"
proof (induction xs arbitrary: ys)
  case Nil
  then show ?case by auto
next
  case (Cons x xs)
  then show ?case
    by (cases ys) (auto simp: seq_Inr_iff)
qed

lemma traverse_length: "traverse f xs = Inr ys \<Longrightarrow> length ys = length xs"
  by (simp add: traverse_Inr_iff list_all2_lengthD)

lemma traverse_succeeds:
  "list_all (\<lambda>x. \<exists>y. f x = Inr y) xs \<Longrightarrow> \<exists>ys. traverse f xs = Inr ys"
  by (induction xs) auto

subsection \<open>The loader\<close>

lemma take_rows_not_FileNotFound: "take_rows df locs \<noteq> Inl (FileNotFoundError msg)"
  by (simp add: take_rows_def)

lemma sample_n_not_FileNotFound: "sample_n choice g n rs df \<noteq> Inl (FileNotFoundError msg)"
  by (simp add: sample_n_def take_rows_not_FileNotFound)

lemma load_existing_not_FileNotFound:
  "fs USER_PROVIDED_PATH = Some f \<Longrightarrow> load_raw_data choice g fs \<noteq> Inl (FileNotFoundError msg)"
  by (auto simp: load_raw_data_def read_csv_usecols_def sample_frac_def
      sample_n_not_FileNotFound seq_Inl_iff)

text \<open>
  C9. \<open>load_raw_data\<close> raises \<open>FileNotFoundError\<close> exactly when nothing exists
  at \<open>USER_PROVIDED_PATH\<close>; the message is the one built in the source and
  begins with \<open>Dataset file not found:\<close>. \<open>main\<close> calls the loader once and
  catches nothing, so the same error is the result of the whole run.
\<close>

theorem load_raw_data_missing_file:
  "(load_raw_data choice np_random fs = Inl (FileNotFoundError not_found_message))
     = (fs USER_PROVIDED_PATH = None) \<and>
   ((\<exists>msg. load_raw_data choice np_random fs = Inl (FileNotFoundError msg))
     = (fs USER_PROVIDED_PATH = None)) \<and>
   (fs USER_PROVIDED_PATH = None \<longrightarrow>
      main parse choice np_random fs out = Inl (FileNotFoundError not_found_message)) \<and>
   take 24 not_found_message = ''Dataset file not found: ''"
proof -
  have a: "fs USER_PROVIDED_PATH = None \<Longrightarrow>
      load_raw_data choice np_random fs = Inl (FileNotFoundError not_found_message)"
    by (simp add: load_raw_data_def)
  have b: "fs USER_PROVIDED_PATH \<noteq> None \<Longrightarrow>
      load_raw_data choice np_random fs \<noteq> Inl (FileNotFoundError msg)" for msg
    using load_existing_not_FileNotFound by blast
  have c: "fs USER_PROVIDED_PATH = None \<Longrightarrow>
      main parse choice np_random fs out = Inl (FileNotFoundError not_found_message)"
    by (simp add: main_def a)
  have d: "take 24 not_found_message = ''Dataset file not found: ''"
    by (simp add: not_found_message_def)
  from a b c d show ?thesis by blast
qed

theorem load_raw_data_missing_file_witness:
  "Map.empty USER_PROVIDED_PATH = (None :: csv_file option) \<and>
   main (\<lambda>c. None) (\<lambda>gen pop k. [0..<k]) 0 Map.empty Map.empty
     = Inl (FileNotFoundError not_found_message) \<and>
   load_raw_data (\<lambda>gen pop k. [0..<k]) 0
       (Map.empty(USER_PROVIDED_PATH \<mapsto> \<lparr>st_size = 10, table = DataFrame\<rparr>))
     = Inr DataFrame"
proof -
  have "load_raw_data (\<lambda>gen pop k. [0..<k]) 0
       (Map.empty(USER_PROVIDED_PATH \<mapsto> \<lparr>st_size = 10, table = DataFrame\<rparr>))
     = Inr DataFrame"
    by (simp add: load_raw_data_def)
  with load_raw_data_missing_file [of "\<lambda>gen pop k. [0..<k]" 0 Map.empty "\<lambda>c. None" Map.empty]
  show ?thesis by simp
qed

subsection \<open>The writer\<close>

lemma save_aggregates_other_path:
  "\<forall>(name, data) \<in> set xs. PROCESSED_DIR @ ''/'' @ name @ ''.csv'' \<noteq> p \<Longrightarrow>
   save_aggregates xs out p = out p"
proof (induction xs arbitrary: out)
  case Nil
  then show ?case by simp
next
  case (Cons x xs)
  obtain name data where x: "x = (name, data)"
    by (cases x)
  from Cons.prems x have here: "PROCESSED_DIR @ ''/'' @ name @ ''.csv'' \<noteq> p"
    by simp
  from Cons.prems have rest: "\<forall>(name, data) \<in> set xs. PROCESSED_DIR @ ''/'' @ name @ ''.csv'' \<noteq> p"
    by simp
  show ?case
    using Cons.IH [OF rest] here x by (simp add: to_csv_def)
qed

lemma save_aggregates_keeps_sample:
  "save_aggregates (items ds) out (PROCESSED_DIR @ ''/accidents_sample.csv'')
     = out (PROCESSED_DIR @ ''/accidents_sample.csv'')"
  by (rule save_aggregates_other_path) (simp add: items_def)

lemma save_aggregates_keeps_processed:
  "save_aggregates (items ds) out (PROCESSED_DIR @ ''/accidents_processed.csv'')
     = out (PROCESSED_DIR @ ''/accidents_processed.csv'')"
  by (rule save_aggregates_other_path) (simp add: items_def)

lemma sample_n_seeded:
  assumes "draws_without_replacement choice" and "n \<le> length (rows df)"
  shows "sample_n choice g n (Some seed) df =
    Inr \<lparr>columns = columns df,
         rows = map (\<lambda>i. rows df ! i) (choice (RandomState seed) (length (rows df)) n)\<rparr>"
  using assms
  by (simp add: sample_n_def take_rows_def resolve_random_state_def draws_without_replacement_def)

lemma save_large:
  assumes "draws_without_replacement choice" and "100000 < length (rows (main_data ds))"
  shows "save_processed_data choice g ds out =
    Inr (save_aggregates (items ds)
      (to_csv \<lparr>columns = columns (main_data ds),
               rows = map (\<lambda>i. rows (main_data ds) ! i)
                 (choice (RandomState 42) (length (rows (main_data ds))) 100000)\<rparr>
        ''accidents_sample.csv'' out))"
  using assms by (simp add: save_processed_data_def sample_n_seeded)

text \<open>
  C3. When the enriched table has more than 100,000 rows, the writer stores
  under \<open>accidents_sample.csv\<close> a table of exactly 100,000 rows, each a row of
  the enriched table. The file is the same whatever state the generator of the
  process is in and whatever the output directory held before: the sample is
  drawn from a generator seeded with 42.
\<close>

theorem save_processed_data_sample:
  assumes "draws_without_replacement choice"
    and "100000 < length (rows (main_data ds))"
  shows "\<exists>out' d.
      save_processed_data choice np_random ds out = Inr out' \<and>
      out' (PROCESSED_DIR @ ''/accidents_sample.csv'') = Some d \<and>
      length (rows d) = 100000 \<and>
      set (rows d) \<subseteq> set (rows (main_data ds)) \<and>
      columns d = columns (main_data ds) \<and>
      (\<forall>np_random2 out2. \<exists>out2'.
         save_processed_data choice np_random2 ds out2 = Inr out2' \<and>
         out2' (PROCESSED_DIR @ ''/accidents_sample.csv'') = Some d)"
proof -
  let ?locs = "choice (RandomState 42) (length (rows (main_data ds))) 100000"
  let ?d = "\<lparr>columns = columns (main_data ds), rows = map (\<lambda>i. rows (main_data ds) ! i) ?locs\<rparr>"
  from assms have len: "length ?locs = 100000"
    and below: "list_all (\<lambda>i. i < length (rows (main_data ds))) ?locs"
    by (simp_all add: draws_without_replacement_def)
  have written: "\<exists>out'. save_processed_data choice g ds o1 = Inr out' \<and>
      out' (PROCESSED_DIR @ ''/accidents_sample.csv'') = Some ?d" for g o1
    using save_large [OF assms, of g o1]
    by (simp add: save_aggregates_keeps_sample) (simp add: to_csv_def)
  from below have sub: "set (rows ?d) \<subseteq> set (rows (main_data ds))"
    by (auto simp: list_all_iff)
  from written [of np_random out] obtain out' where
    "save_processed_data choice np_random ds out = Inr out'"
    "out' (PROCESSED_DIR @ ''/accidents_sample.csv'') = Some ?d"
    by blast
  with len sub written show ?thesis
    by (intro exI [of _ out'] exI [of _ ?d]) simp
qed

theorem save_processed_data_sample_witness:
  "draws_without_replacement (\<lambda>gen pop k. [0..<k]) \<and>
   100000 < length (rows (main_data
     \<lparr>main_data = \<lparr>columns = [''ID''], rows = replicate 100001 (\<lambda>c. NaN)\<rparr>,
      state_data = DataFrame, time_data = DataFrame, hour_data = DataFrame,
      weekday_data = DataFrame, weather_data = DataFrame, city_data = DataFrame\<rparr>)) \<and>
   (\<exists>out' d.
      save_processed_data (\<lambda>gen pop k. [0..<k]) 0
        \<lparr>main_data = \<lparr>columns = [''ID''], rows = replicate 100001 (\<lambda>c. NaN)\<rparr>,
         state_data = DataFrame, time_data = DataFrame, hour_data = DataFrame,
         weekday_data = DataFrame, weather_data = DataFrame, city_data = DataFrame\<rparr>
        Map.empty = Inr out' \<and>
      out' (PROCESSED_DIR @ ''/accidents_sample.csv'') = Some d \<and>
      length (rows d) = 100000)"
proof -
  have a: "draws_without_replacement (\<lambda>gen pop k. [0..<k])"
    by (simp add: draws_without_replacement_def list_all_iff)
  have b: "100000 < length (rows (main_data
     \<lparr>main_data = \<lparr>columns = [''ID''], rows = replicate 100001 (\<lambda>c. NaN)\<rparr>,
      state_data = DataFrame, time_data = DataFrame, hour_data = DataFrame,
      weekday_data = DataFrame, weather_data = DataFrame, city_data = DataFrame\<rparr>))"
    by simp
  from save_processed_data_sample [OF a b, of 0 Map.empty] a b show ?thesis
    by blast
qed

subsection \<open>Data frame steps\<close>

lemma length_cells [simp]: "length (cells df c) = length (rows df)"
  by (simp add: cells_def)

lemma length_rows_assign:
  "length vs = length (rows df) \<Longrightarrow> length (rows (assign df c vs)) = length (rows df)"
  by (simp add: assign_def)

lemma cells_assign_same:
  "length vs = length (rows df) \<Longrightarrow> cells (assign df c vs) c = vs"
proof -
  assume len: "length vs = length (rows df)"
  have "map (\<lambda>r. r c) (map (\<lambda>(r, v). r(c := v)) (zip (rows df) vs)) = map snd (zip (rows df) vs)"
    by (simp add: case_prod_unfold)
  with len show ?thesis
    by (simp add: cells_def assign_def)
qed

lemma cells_assign_other:
  "length vs = length (rows df) \<Longrightarrow> c' \<noteq> c \<Longrightarrow> cells (assign df c vs) c' = cells df c'"
proof -
  assume len: "length vs = length (rows df)" and ne: "c' \<noteq> c"
  from ne have "map (\<lambda>r. r c') (map (\<lambda>(r, v). r(c := v)) (zip (rows df) vs))
      = map (\<lambda>r. r c') (map fst (zip (rows df) vs))"
    by (simp add: case_prod_unfold)
  with len show ?thesis
    by (simp add: cells_def assign_def)
qed

lemma set_columns_assign: "set (columns (assign df c vs)) = insert c (set (columns df))"
  by (auto simp: assign_def)

lemma frame_assign: "length vs = length (rows df) \<Longrightarrow> frame {c} df (assign df c vs)"
  by (auto simp: frame_def length_rows_assign cells_assign_other set_columns_assign)

lemma frame_refl: "frame T df df"
  by (simp add: frame_def)

lemma frame_trans: "frame T1 a b \<Longrightarrow> frame T2 b c \<Longrightarrow> frame (T1 \<union> T2) a c"
  by (auto simp: frame_def)

lemma frame_mono: "frame T a b \<Longrightarrow> T \<subseteq> U \<Longrightarrow> frame U a b"
  by (auto simp: frame_def)

lemma frame_cells: "frame T a b \<Longrightarrow> c \<notin> T \<Longrightarrow> cells b c = cells a c"
  by (simp add: frame_def)

lemma frame_length: "frame T a b \<Longrightarrow> length (rows b) = length (rows a)"
  by (simp add: frame_def)

lemma frame_column_kept: "frame T a b \<Longrightarrow> c \<in> set (columns a) \<Longrightarrow> c \<in> set (columns b)"
  by (auto simp: frame_def)

lemma frame_column_back: "frame T a b \<Longrightarrow> c \<in> set (columns b) \<Longrightarrow> c \<notin> T \<Longrightarrow> c \<in> set (columns a)"
  by (auto simp: frame_def)

lemma derive_Inr:
  assumes "derive target source f df = Inr df'"
    and "keeps_length f"
  shows "source \<in> set (columns df) \<and> f (cells df source) = Inr (cells df' target) \<and>
    frame {target} df df' \<and> target \<in> set (columns df')"
proof -
  from assms(1) obtain cs vs where cs: "column df source = Inr cs" and vs: "f cs = Inr vs"
    and df': "df' = assign df target vs"
    by (auto simp: derive_def seq_Inr_iff)
  from cs have src: "source \<in> set (columns df)" and cs_eq: "cs = cells df source"
    by (auto simp: column_def split: if_splits)
  from assms(2) vs cs_eq have len: "length vs = length (rows df)"
    by (simp add: keeps_length_def)
  from len df' have "cells df' target = vs"
    by (simp add: cells_assign_same)
  with src vs cs_eq df' len show ?thesis
    by (simp add: frame_assign set_columns_assign)
qed

lemma derive_succeeds:
  "source \<in> set (columns df) \<Longrightarrow> f (cells df source) = Inr vs \<Longrightarrow>
   derive target source f df = Inr (assign df target vs)"
  by (simp add: derive_def column_def)

lemma keeps_length_traverse: "keeps_length (traverse f)"
  by (simp add: keeps_length_def traverse_length)

lemma keeps_length_dt: "keeps_length (dt field)"
  by (simp add: keeps_length_def dt_def traverse_length)

lemma keeps_length_to_datetime: "keeps_length (to_datetime parse)"
  by (auto simp: keeps_length_def to_datetime_def split: option.splits)

lemma extract_time_features_Inr:
  assumes "extract_time_features df = Inr df'"
  shows "frame {''Year'', ''Month'', ''Day'', ''Hour'', ''DayOfWeek'', ''Weekend''} df df'"
    and "list_all2 (\<lambda>s d. dt1 dayofweek s = Inr d) (cells df ''Start_Time'') (cells df' ''DayOfWeek'')"
    and "list_all2 (\<lambda>d w. weekend_flag d = Inr w) (cells df' ''DayOfWeek'') (cells df' ''Weekend'')"
    and "{''Year'', ''Month'', ''Day'', ''Hour'', ''DayOfWeek'', ''Weekend''} \<subseteq> set (columns df')"
proof -
  from assms obtain d1 d2 d3 d4 d5 where
    s1: "derive ''Year'' ''Start_Time'' (dt year) df = Inr d1" and
    s2: "derive ''Month'' ''Start_Time'' (dt month) d1 = Inr d2" and
    s3: "derive ''Day'' ''Start_Time'' (dt day) d2 = Inr d3" and
    s4: "derive ''Hour'' ''Start_Time'' (dt hour) d3 = Inr d4" and
    s5: "derive ''DayOfWeek'' ''Start_Time'' (dt dayofweek) d4 = Inr d5" and
    s6: "derive ''Weekend'' ''DayOfWeek'' (traverse weekend_flag) d5 = Inr df'"
    unfolding extract_time_features_def seq_Inr_iff by blast
  note r1 = derive_Inr [OF s1 keeps_length_dt] and r2 = derive_Inr [OF s2 keeps_length_dt]
    and r3 = derive_Inr [OF s3 keeps_length_dt] and r4 = derive_Inr [OF s4 keeps_length_dt]
    and r5 = derive_Inr [OF s5 keeps_length_dt] and r6 = derive_Inr [OF s6 keeps_length_traverse]
  from r1 r2 have f2: "frame {''Year'', ''Month''} df d2"
    using frame_trans [of "{''Year''}" df d1 "{''Month''}" d2] by (simp add: insert_commute)
  from f2 r3 have f3: "frame {''Year'', ''Month'', ''Day''} df d3"
    using frame_trans [of "{''Year'', ''Month''}" df d2 "{''Day''}" d3] by (simp add: insert_commute)
  from f3 r4 have f4: "frame {''Year'', ''Month'', ''Day'', ''Hour''} df d4"
    using frame_trans [of "{''Year'', ''Month'', ''Day''}" df d3 "{''Hour''}" d4]
    by (simp add: insert_commute)
  from f4 r5 have f5: "frame {''Year'', ''Month'', ''Day'', ''Hour'', ''DayOfWeek''} df d5"
    using frame_trans [of "{''Year'', ''Month'', ''Day'', ''Hour''}" df d4 "{''DayOfWeek''}" d5]
    by (simp add: insert_commute)
  from f5 r6 show f6: "frame {''Year'', ''Month'', ''Day'', ''Hour'', ''DayOfWeek'', ''Weekend''} df df'"
    using frame_trans [of "{''Year'', ''Month'', ''Day'', ''Hour'', ''DayOfWeek''}" df d5
        "{''Weekend''}" df']
    by (simp add: insert_commute)
  have st: "cells d4 ''Start_Time'' = cells df ''Start_Time''"
    using frame_cells [OF f4, of "''Start_Time''"] by simp
  have dow: "cells df' ''DayOfWeek'' = cells d5 ''DayOfWeek''"
    using r6 frame_cells [of "{''Weekend''}" d5 df' "''DayOfWeek''"] by simp
  from r5 st dow show "list_all2 (\<lambda>s d. dt1 dayofweek s = Inr d)
      (cells df ''Start_Time'') (cells df' ''DayOfWeek'')"
    by (simp add: dt_def traverse_Inr_iff)
  from r6 dow show "list_all2 (\<lambda>d w. weekend_flag d = Inr w)
      (cells df' ''DayOfWeek'') (cells df' ''Weekend'')"
    by (simp add: traverse_Inr_iff)
  have c1: "''Year'' \<in> set (columns df')"
    using r1 frame_column_kept [of _ d1 d2] frame_column_kept [of _ d2 d3]
      frame_column_kept [of _ d3 d4] frame_column_kept [of _ d4 d5] frame_column_kept [of _ d5 df']
      r2 r3 r4 r5 r6 by blast
  have c2: "''Month'' \<in> set (columns df')"
    using frame_column_kept [of _ d2 d3]
      frame_column_kept [of _ d3 d4] frame_column_kept [of _ d4 d5] frame_column_kept [of _ d5 df']
      r2 r3 r4 r5 r6 by blast
  have c3: "''Day'' \<in> set (columns df')"
    using frame_column_kept [of _ d3 d4] frame_column_kept [of _ d4 d5] frame_column_kept [of _ d5 df']
      r3 r4 r5 r6 by blast
  have c4: "''Hour'' \<in> set (columns df')"
    using frame_column_kept [of _ d4 d5] frame_column_kept [of _ d5 df']
      r4 r5 r6 by blast
  have c5: "''DayOfWeek'' \<in> set (columns df')"
    using frame_column_kept [of _ d5 df'] r5 r6 by blast
  from c1 c2 c3 c4 c5 r6 show "{''Year'', ''Month'', ''Day'', ''Hour'', ''DayOfWeek'', ''Weekend''}
      \<subseteq> set (columns df')"
    by simp
qed

lemma dayofweek_range: "0 \<le> dayofweek t \<and> dayofweek t < 7"
proof -
  obtain y0 m d where c: "civil t = (y0, m, d)"
    by (cases "civil t")
  have "\<exists>x. dayofweek t = x mod 7"
    unfolding dayofweek_def c Let_def prod.case by (rule exI) (rule refl)
  then obtain x where "dayofweek t = x mod 7" ..
  then show ?thesis
    by simp
qed

lemma weekend_flag_of_int:
  assumes "0 \<le> k" and "k < 7"
  shows "weekend_flag (Num (of_int k)) = Inr (Num (if k = 5 \<or> k = 6 then 1 else 0))"
proof -
  have "((5::rat) \<le> of_int k) = (5 \<le> k)"
    using of_int_le_iff [of 5 k, where 'a = rat] by simp
  also from assms have "\<dots> = (k = 5 \<or> k = 6)"
    by arith
  finally show ?thesis
    by simp
qed

lemma Num_of_int_eq_numeral: "(Num (of_int k) = Num (numeral n)) = (k = numeral n)"
  using of_int_eq_iff [of k "numeral n", where 'a = rat] by simp

lemma weekend_of_dayofweek:
  assumes "dt1 dayofweek s = Inr d" and "weekend_flag d = Inr w"
  shows "(w = Num 1) = (d = Num 5 \<or> d = Num 6)"
proof (cases s)
  case NaN
  with assms show ?thesis by auto
next
  case (Time t)
  with assms(1) have d: "d = Num (of_int (dayofweek t))"
    by simp
  from assms(2) d have "w = Num (if dayofweek t = 5 \<or> dayofweek t = 6 then 1 else 0)"
    using weekend_flag_of_int [of "dayofweek t"] dayofweek_range [of t] by simp
  with d show ?thesis
    by (simp add: Num_of_int_eq_numeral)
next
  case (Num x)
  with assms show ?thesis by simp
next
  case (Str x)
  with assms show ?thesis by simp
qed

lemma column_Inr_iff: "(column df c = Inr cs) = (c \<in> set (columns df) \<and> cs = cells df c)"
  by (auto simp: column_def)

lemma convert_timestamps_Inr:
  assumes "convert_timestamps parse df = Inr df'"
  shows "frame {''Start_Time'', ''End_Time'', ''Duration_Minutes''} df df'"
proof -
  from assms obtain d1 where
    s1: "derive ''Start_Time'' ''Start_Time'' (to_datetime parse) df = Inr d1" and
    rest: "(if ''End_Time'' \<in> set (columns d1)
      then seq (derive ''End_Time'' ''End_Time'' (to_datetime parse) d1) (\<lambda>df.
           seq (column df ''End_Time'') (\<lambda>es.
           seq (column df ''Start_Time'') (\<lambda>ss.
           seq (traverse (\<lambda>(e, s). duration_minutes e s) (zip es ss)) (\<lambda>ds.
           Inr (assign df ''Duration_Minutes'' ds)))))
      else Inr d1) = Inr df'"
    unfolding convert_timestamps_def seq_Inr_iff by blast
  note r1 = derive_Inr [OF s1 keeps_length_to_datetime]
  show ?thesis
  proof (cases "''End_Time'' \<in> set (columns d1)")
    case False
    with rest have "df' = d1" by simp
    with r1 show ?thesis
      using frame_mono [of "{''Start_Time''}" df d1] by simp
  next
    case True
    with rest obtain d2 es ss ds where
      s2: "derive ''End_Time'' ''End_Time'' (to_datetime parse) d1 = Inr d2" and
      es: "column d2 ''End_Time'' = Inr es" and ss: "column d2 ''Start_Time'' = Inr ss" and
      ds: "traverse (\<lambda>(e, s). duration_minutes e s) (zip es ss) = Inr ds" and
      df': "df' = assign d2 ''Duration_Minutes'' ds"
      by (auto simp: seq_Inr_iff)
    note r2 = derive_Inr [OF s2 keeps_length_to_datetime]
    from es ss have "length es = length (rows d2)" "length ss = length (rows d2)"
      by (simp_all add: column_Inr_iff)
    with traverse_length [OF ds] have "length ds = length (rows d2)"
      by simp
    with df' have f3: "frame {''Duration_Minutes''} d2 df'"
      by (simp add: frame_assign)
    from r1 r2 have f12: "frame ({''Start_Time''} \<union> {''End_Time''}) df d2"
      by (blast intro: frame_trans)
    from f12 f3 have "frame (({''Start_Time''} \<union> {''End_Time''}) \<union> {''Duration_Minutes''}) df df'"
      by (rule frame_trans)
    then show ?thesis
      by (simp add: insert_commute)
  qed
qed

lemma median_total: "\<not> list_ex non_numeric cs \<Longrightarrow> \<exists>m. median cs = Inr m"
  by (simp add: median_def)

lemma impute_Inr:
  assumes "impute cols df = Inr df'" and "distinct cols"
  shows "frame (set cols) df df' \<and> set (columns df') = set (columns df) \<and>
    (\<forall>c \<in> set cols. c \<in> set (columns df) \<longrightarrow>
      (\<exists>m. median (cells df c) = Inr m \<and> cells df' c = fillna m (cells df c)))"
  using assms
proof (induction cols arbitrary: df)
  case Nil
  then show ?case by (simp add: frame_refl)
next
  case (Cons col cols)
  from Cons.prems(2) have dist: "distinct cols" and fresh: "col \<notin> set cols"
    by simp_all
  show ?case
  proof (cases "col \<in> set (columns df)")
    case False
    with Cons.prems(1) have "impute cols df = Inr df'"
      by simp
    from Cons.IH [OF this dist] False show ?thesis
      using frame_mono [of "set cols" df df' "set (col # cols)"] by auto
  next
    case True
    with Cons.prems(1) obtain m where m: "median (cells df col) = Inr m"
      and rest: "impute cols (assign df col (fillna m (cells df col))) = Inr df'"
      by (auto simp: seq_Inr_iff column_Inr_iff)
    let ?d1 = "assign df col (fillna m (cells df col))"
    have len: "length (fillna m (cells df col)) = length (rows df)"
      by (simp add: fillna_def)
    have f1: "frame {col} df ?d1"
      using len by (rule frame_assign)
    from True have cols1: "set (columns ?d1) = set (columns df)"
      by (auto simp: set_columns_assign)
    note ih = Cons.IH [OF rest dist]
    from ih have f2: "frame (set cols) ?d1 df'"
      by simp
    from f1 f2 have f: "frame (set (col # cols)) df df'"
      using frame_trans [of "{col}" df ?d1 "set cols" df'] by simp
    have here: "cells df' col = fillna m (cells df col)"
      using frame_cells [OF f2 fresh] len by (simp add: cells_assign_same)
    have others: "\<exists>m'. median (cells df c) = Inr m' \<and> cells df' c = fillna m' (cells df c)"
      if c: "c \<in> set cols" "c \<in> set (columns df)" for c
    proof -
      from c fresh have "c \<noteq> col" by auto
      then have "cells ?d1 c = cells df c"
        using len by (simp add: cells_assign_other)
      with ih c cols1 show ?thesis
        by auto
    qed
    from f ih cols1 m here others show ?thesis
      by auto
  qed
qed

lemma categorize_weather_Inr:
  assumes "categorize_weather df = Inr df'"
  shows "frame {''Weather_Category''} df df'"
proof (cases "''Weather_Condition'' \<in> set (columns df)")
  case False
  with assms show ?thesis
    by (simp add: categorize_weather_def frame_refl)
next
  case True
  have "keeps_length (\<lambda>cs. seq (traverse map_weather cs) (\<lambda>ws. Inr (map Str ws)))"
    by (auto simp: keeps_length_def seq_Inr_iff dest: traverse_length)
  with assms True show ?thesis
    using derive_Inr [of "''Weather_Category''" "''Weather_Condition''" _ df df']
    by (simp add: categorize_weather_def)
qed

lemma enrich_Inr:
  assumes "enrich parse df = Inr df'"
  shows "\<exists>d1 d2 d3. convert_timestamps parse df = Inr d1 \<and> extract_time_features d1 = Inr d2 \<and>
    impute (numerical_cols d2) d2 = Inr d3 \<and> categorize_weather d3 = Inr df'"
  using assms unfolding enrich_def seq_Inr_iff by blast

lemma distinct_numerical_cols: "distinct (numerical_cols df)"
  by (simp add: numerical_cols_def)

lemma aggregate_main_data: "aggregate df = Inr ds \<Longrightarrow> main_data ds = df"
  unfolding aggregate_def seq_Inr_iff by auto

lemma preprocess_data_Inr:
  assumes "preprocess_data parse df = Inr ds"
  shows "enrich parse df = Inr (main_data ds) \<and> aggregate (main_data ds) = Inr ds"
proof -
  from assms obtain e where e: "enrich parse df = Inr e" and a: "aggregate e = Inr ds"
    by (auto simp: preprocess_data_def seq_Inr_iff)
  from a have "main_data ds = e"
    by (rule aggregate_main_data)
  with e a show ?thesis by simp
qed

lemma row_cells_nth:
  "i < length (rows df) \<Longrightarrow> cells df c ! i = (rows df ! i) c"
  by (simp add: cells_def)

lemma enrich_weekend:
  assumes "enrich parse df = Inr df'"
  shows "\<exists>ss. list_all2 (\<lambda>s d. dt1 dayofweek s = Inr d) ss (cells df' ''DayOfWeek'') \<and>
    list_all2 (\<lambda>d w. weekend_flag d = Inr w) (cells df' ''DayOfWeek'') (cells df' ''Weekend'')"
proof -
  from enrich_Inr [OF assms] obtain d1 d2 d3 where
    s2: "extract_time_features d1 = Inr d2" and
    s3: "impute (numerical_cols d2) d2 = Inr d3" and
    s4: "categorize_weather d3 = Inr df'"
    by blast
  from impute_Inr [OF s3 distinct_numerical_cols] have f3: "frame (set (numerical_cols d2)) d2 d3"
    by simp
  note f4 = categorize_weather_Inr [OF s4]
  have dow: "cells df' ''DayOfWeek'' = cells d2 ''DayOfWeek''"
    using frame_cells [OF f4, of "''DayOfWeek''"] frame_cells [OF f3, of "''DayOfWeek''"]
    by (simp add: numerical_cols_def)
  have we: "cells df' ''Weekend'' = cells d2 ''Weekend''"
    using frame_cells [OF f4, of "''Weekend''"] frame_cells [OF f3, of "''Weekend''"]
    by (simp add: numerical_cols_def)
  from extract_time_features_Inr(2,3) [OF s2] dow we show ?thesis
    by auto
qed


text \<open>
  C6. In every row of the enriched table, the \<open>Weekend\<close> flag is 1 exactly when
  \<open>DayOfWeek\<close> is 5 or 6.
\<close>

theorem weekend_iff_dayofweek:
  assumes "preprocess_data parse df = Inr ds" and "r \<in> set (rows (main_data ds))"
  shows "(r ''Weekend'' = Num 1) = (r ''DayOfWeek'' = Num 5 \<or> r ''DayOfWeek'' = Num 6)"
proof -
  let ?m = "main_data ds"
  from preprocess_data_Inr [OF assms(1)] have "enrich parse df = Inr ?m"
    by simp
  from enrich_weekend [OF this] obtain ss where
    a: "list_all2 (\<lambda>s d. dt1 dayofweek s = Inr d) ss (cells ?m ''DayOfWeek'')" and
    b: "list_all2 (\<lambda>d w. weekend_flag d = Inr w) (cells ?m ''DayOfWeek'') (cells ?m ''Weekend'')"
    by blast
  from assms(2) obtain i where i: "i < length (rows ?m)" and r: "r = rows ?m ! i"
    by (auto simp: in_set_conv_nth)
  from a i have "dt1 dayofweek (ss ! i) = Inr (cells ?m ''DayOfWeek'' ! i)"
    by (simp add: list_all2_conv_all_nth)
  moreover from b i have "weekend_flag (cells ?m ''DayOfWeek'' ! i) = Inr (cells ?m ''Weekend'' ! i)"
    by (simp add: list_all2_conv_all_nth)
  ultimately have "(cells ?m ''Weekend'' ! i = Num 1) =
      (cells ?m ''DayOfWeek'' ! i = Num 5 \<or> cells ?m ''DayOfWeek'' ! i = Num 6)"
    by (rule weekend_of_dayofweek)
  with i r show ?thesis
    by (simp add: row_cells_nth)
qed

lemma example_runs: "preprocess_data example_parse example_table = Inr example_datasets"
proof -
  have "\<not> isl (preprocess_data example_parse example_table)"
    by code_simp
  then show ?thesis
    by (simp add: example_datasets_def)
qed

theorem weekend_iff_dayofweek_witness:
  "preprocess_data example_parse example_table = Inr example_datasets \<and>
   rows (main_data example_datasets) ! 1 \<in> set (rows (main_data example_datasets)) \<and>
   (rows (main_data example_datasets) ! 1) ''DayOfWeek'' = Num 5 \<and>
   (rows (main_data example_datasets) ! 1) ''Weekend'' = Num 1 \<and>
   rows (main_data example_datasets) ! 0 \<in> set (rows (main_data example_datasets)) \<and>
   (rows (main_data example_datasets) ! 0) ''DayOfWeek'' = Num 0 \<and>
   (rows (main_data example_datasets) ! 0) ''Weekend'' \<noteq> Num 1"
proof -
  have len: "length (rows (main_data example_datasets)) = 3"
    by code_simp
  have sat: "(rows (main_data example_datasets) ! 1) ''DayOfWeek'' = Num 5"
    by code_simp
  have mon: "(rows (main_data example_datasets) ! 0) ''DayOfWeek'' = Num 0"
    by code_simp
  from len have in1: "rows (main_data example_datasets) ! 1 \<in> set (rows (main_data example_datasets))"
    and in0: "rows (main_data example_datasets) ! 0 \<in> set (rows (main_data example_datasets))"
    by simp_all
  from weekend_iff_dayofweek [OF example_runs in1] weekend_iff_dayofweek [OF example_runs in0]
    example_runs in1 in0 sat mon
  show ?thesis
    by simp
qed

subsection \<open>Median imputation\<close>

lemma mset_nums:
  "mset (nums cs) =
    image_mset (\<lambda>c. case c of Num x \<Rightarrow> x | _ \<Rightarrow> 0) (filter_mset (\<lambda>c. \<exists>x. c = Num x) (mset cs))"
  by (induction cs rule: nums.induct) simp_all

lemma sort_cong_mset: "mset xs = mset ys \<Longrightarrow> sort xs = sort ys"
  by (metis sorted_list_of_multiset_mset)

lemma median_mset:
  assumes "mset cs = mset cs'"
  shows "median cs = median cs'"
proof -
  from assms have "set cs = set cs'"
    by (rule mset_eq_setD)
  then have "list_ex non_numeric cs = list_ex non_numeric cs'"
    by (simp add: list_ex_iff)
  moreover from assms have "mset (nums cs) = mset (nums cs')"
    by (simp add: mset_nums)
  then have "sort (nums cs) = sort (nums cs')"
    by (rule sort_cong_mset)
  ultimately show ?thesis
    by (simp add: median_def)
qed

lemma median_rows_mset:
  "mset (rows df2) = mset (rows df) \<Longrightarrow> median (cells df2 c) = median (cells df c)"
proof (rule median_mset)
  assume "mset (rows df2) = mset (rows df)"
  then have "image_mset (\<lambda>r. r c) (mset (rows df2)) = image_mset (\<lambda>r. r c) (mset (rows df))"
    by simp
  then show "mset (cells df2 c) = mset (cells df c)"
    by (simp add: cells_def)
qed

lemma imputed_names:
  assumes "col \<in> {''Severity'', ''Start_Lat'', ''Start_Lng''} \<or>
         col \<in> {''Temperature(F)'', ''Visibility(mi)''} \<and> P"
  shows "col \<notin> {''Start_Time'', ''End_Time'', ''Duration_Minutes''}"
    and "col \<notin> {''Year'', ''Month'', ''Day'', ''Hour'', ''DayOfWeek'', ''Weekend''}"
    and "col \<notin> {''Weather_Category''}"
  using assms by (elim disjE conjE insertE emptyE; simp)+

lemma imputed_listed:
  assumes "col \<in> {''Severity'', ''Start_Lat'', ''Start_Lng''} \<or>
         col \<in> {''Temperature(F)'', ''Visibility(mi)''} \<and> ''Temperature(F)'' \<in> set (columns df)"
  shows "col \<in> set (numerical_cols df)"
  using assms by (elim disjE conjE insertE emptyE; simp add: numerical_cols_def)

lemma enrich_imputed:
  assumes "enrich parse df = Inr df'" and "col \<in> set (columns df)"
    and "col \<in> {''Severity'', ''Start_Lat'', ''Start_Lng''} \<or>
         col \<in> {''Temperature(F)'', ''Visibility(mi)''} \<and> ''Temperature(F)'' \<in> set (columns df)"
  shows "\<exists>m. median (cells df col) = Inr m \<and> cells df' col = fillna m (cells df col)"
proof -
  from enrich_Inr [OF assms(1)] obtain d1 d2 d3 where
    s1: "convert_timestamps parse df = Inr d1" and
    s2: "extract_time_features d1 = Inr d2" and
    s3: "impute (numerical_cols d2) d2 = Inr d3" and
    s4: "categorize_weather d3 = Inr df'"
    by blast
  note f1 = convert_timestamps_Inr [OF s1]
  note f2 = extract_time_features_Inr(1) [OF s2]
  note f4 = categorize_weather_Inr [OF s4]
  note names = imputed_names [OF assms(3)]
  have same: "cells d2 col = cells df col"
    using frame_cells [OF f1 names(1)] frame_cells [OF f2 names(2)] by simp
  have present: "col \<in> set (columns d2)"
    by (rule frame_column_kept [OF f2 frame_column_kept [OF f1 assms(2)]])
  have temp: "''Temperature(F)'' \<in> set (columns d2)" if "''Temperature(F)'' \<in> set (columns df)"
    by (rule frame_column_kept [OF f2 frame_column_kept [OF f1 that]])
  from assms(3) have listed: "col \<in> set (numerical_cols d2)"
  proof (elim disjE conjE)
    assume "col \<in> {''Severity'', ''Start_Lat'', ''Start_Lng''}"
    then show ?thesis
      by (rule imputed_listed [OF disjI1])
  next
    assume a: "col \<in> {''Temperature(F)'', ''Visibility(mi)''}"
      and b: "''Temperature(F)'' \<in> set (columns df)"
    show ?thesis
      by (rule imputed_listed [OF disjI2 [OF conjI [OF a temp [OF b]]]])
  qed
  from impute_Inr [OF s3 distinct_numerical_cols] listed present
  obtain m where m: "median (cells d2 col) = Inr m" "cells d3 col = fillna m (cells d2 col)"
    by blast
  have "cells df' col = cells d3 col"
    by (rule frame_cells [OF f4 names(3)])
  with m same show ?thesis
    by simp
qed

text \<open>
  C5. Each of the columns \<open>Severity\<close>, \<open>Start_Lat\<close> and \<open>Start_Lng\<close> that is
  present, and each of \<open>Temperature(F)\<close> and \<open>Visibility(mi)\<close> that is present
  together with \<open>Temperature(F)\<close>, is in the enriched table the input column with
  every missing value replaced by the median of the input column. The median
  of a column is the same for every order of the input rows.
\<close>

theorem missing_values_filled_with_median:
  assumes "preprocess_data parse df = Inr ds" and "col \<in> set (columns df)"
    and "col \<in> {''Severity'', ''Start_Lat'', ''Start_Lng''} \<or>
         col \<in> {''Temperature(F)'', ''Visibility(mi)''} \<and> ''Temperature(F)'' \<in> set (columns df)"
  shows "(\<exists>m. median (cells df col) = Inr m \<and>
            cells (main_data ds) col = map (\<lambda>c. if isna c then m else c) (cells df col)) \<and>
         (\<forall>df2. mset (rows df2) = mset (rows df) \<longrightarrow>
            median (cells df2 col) = median (cells df col))"
proof (intro conjI allI impI)
  from preprocess_data_Inr [OF assms(1)] have "enrich parse df = Inr (main_data ds)"
    by (rule conjunct1)
  from enrich_imputed [OF this assms(2,3)]
  obtain m where "median (cells df col) = Inr m" "cells (main_data ds) col = fillna m (cells df col)"
    by (elim exE conjE)
  then show "\<exists>m. median (cells df col) = Inr m \<and>
            cells (main_data ds) col = map (\<lambda>c. if isna c then m else c) (cells df col)"
    unfolding fillna_def by (intro exI conjI)
next
  fix df2 :: dataframe
  assume "mset (rows df2) = mset (rows df)"
  then show "median (cells df2 col) = median (cells df col)"
    by (rule median_rows_mset)
qed

theorem missing_values_filled_with_median_witness:
  "preprocess_data example_parse example_table = Inr example_datasets \<and>
   ''Severity'' \<in> set (columns example_table) \<and>
   cells example_table ''Severity'' = [Num 2, NaN, Num 3] \<and>
   median (cells example_table ''Severity'') = Inr (Num (5 / 2)) \<and>
   cells (main_data example_datasets) ''Severity'' = [Num 2, Num (5 / 2), Num 3] \<and>
   median (cells \<lparr>columns = columns example_table, rows = rev example_rows\<rparr> ''Severity'')
     = Inr (Num (5 / 2))"
proof -
  have sev: "''Severity'' \<in> set (columns example_table)"
    by (simp add: example_table_def)
  have listed: "''Severity'' \<in> {''Severity'', ''Start_Lat'', ''Start_Lng''} \<or>
      ''Severity'' \<in> {''Temperature(F)'', ''Visibility(mi)''} \<and>
      ''Temperature(F)'' \<in> set (columns example_table)"
    by simp
  have c: "cells example_table ''Severity'' = [Num 2, NaN, Num 3]"
    by (simp add: cells_def example_table_def example_rows_def)
  have m: "median (cells example_table ''Severity'') = Inr (Num (5 / 2))"
    unfolding c by (simp add: median_def middle_def)
  have rows_rev: "mset (rows \<lparr>columns = columns example_table, rows = rev example_rows\<rparr>)
      = mset (rows example_table)"
    by (simp add: example_table_def)
  note t = missing_values_filled_with_median [OF example_runs sev listed]
  from t obtain m' where m': "median (cells example_table ''Severity'') = Inr m'"
    and filled: "cells (main_data example_datasets) ''Severity''
      = map (\<lambda>c. if isna c then m' else c) (cells example_table ''Severity'')"
    by (elim conjE exE)
  from m m' have "m' = Num (5 / 2)"
    by simp
  with filled c have after: "cells (main_data example_datasets) ''Severity''
      = [Num 2, Num (5 / 2), Num 3]"
    by simp
  from t rows_rev have "median (cells \<lparr>columns = columns example_table, rows = rev example_rows\<rparr>
      ''Severity'') = median (cells example_table ''Severity'')"
    by (elim conjE allE impE)
  with m have rev: "median (cells \<lparr>columns = columns example_table, rows = rev example_rows\<rparr>
      ''Severity'') = Inr (Num (5 / 2))"
    by simp
  from example_runs sev c m after rev show ?thesis
    by (intro conjI)
qed

lemma all_missing_no_numbers:
  "list_all isna cs \<Longrightarrow> nums cs = [] \<and> \<not> list_ex non_numeric cs"
proof (induction cs)
  case Nil
  then show ?case by simp
next
  case (Cons c cs)
  then show ?case by (cases c) simp_all
qed

lemma median_all_missing: "list_all isna cs \<Longrightarrow> median cs = Inr NaN"
  by (simp add: median_def middle_def all_missing_no_numbers)

lemma fillna_NaN: "fillna NaN cs = cs"
proof -
  have "(if isna c then NaN else c) = c" for c
    by (cases c) simp_all
  then show ?thesis
    by (simp add: fillna_def)
qed

lemma nums_nonempty:
  "\<not> list_ex non_numeric cs \<Longrightarrow> \<not> list_all isna cs \<Longrightarrow> nums cs \<noteq> []"
proof (induction cs)
  case Nil
  then show ?case by simp
next
  case (Cons c cs)
  then show ?case by (cases c) simp_all
qed

lemma middle_nonempty: "xs \<noteq> [] \<Longrightarrow> \<not> isna (middle xs)"
  by (simp add: middle_def Let_def)

lemma median_some_present:
  assumes "median cs = Inr m" and "\<not> list_all isna cs"
  shows "\<not> isna m"
proof -
  from assms(1) have numeric: "\<not> list_ex non_numeric cs" and m: "m = middle (sort (nums cs))"
    by (auto simp: median_def split: if_splits)
  from nums_nonempty [OF numeric assms(2)] have "sort (nums cs) \<noteq> []"
    by (metis length_sort list.size(3) length_0_conv)
  with m show ?thesis
    by (simp add: middle_nonempty)
qed

lemma fillna_no_missing: "\<not> isna m \<Longrightarrow> \<not> list_ex isna (fillna m cs)"
  by (induction cs) (simp_all add: fillna_def)

text \<open>
  C10. For a column that the imputation step treats: when every value of the
  input column is missing, its median is \<open>NaN\<close> and every value of the column
  is still missing in the enriched table; when the input column has a value
  that is not missing, no value of the column is missing in the enriched table.
\<close>

theorem all_missing_column_stays_missing:
  assumes "preprocess_data parse df = Inr ds" and "col \<in> set (columns df)"
    and "col \<in> {''Severity'', ''Start_Lat'', ''Start_Lng''} \<or>
         col \<in> {''Temperature(F)'', ''Visibility(mi)''} \<and> ''Temperature(F)'' \<in> set (columns df)"
  shows "(list_all isna (cells df col) \<longrightarrow>
            median (cells df col) = Inr NaN \<and> list_all isna (cells (main_data ds) col)) \<and>
         (\<not> list_all isna (cells df col) \<longrightarrow> \<not> list_ex isna (cells (main_data ds) col))"
proof -
  from preprocess_data_Inr [OF assms(1)] have "enrich parse df = Inr (main_data ds)"
    by (rule conjunct1)
  from enrich_imputed [OF this assms(2,3)]
  obtain m where m: "median (cells df col) = Inr m"
    and filled: "cells (main_data ds) col = fillna m (cells df col)"
    by (elim exE conjE)
  have none: "median (cells df col) = Inr NaN \<and> list_all isna (cells (main_data ds) col)"
    if all: "list_all isna (cells df col)"
  proof -
    from median_all_missing [OF all] m have "m = NaN"
      by simp
    with filled all median_all_missing [OF all] show ?thesis
      by (simp add: fillna_NaN)
  qed
  have some: "\<not> list_ex isna (cells (main_data ds) col)" if "\<not> list_all isna (cells df col)"
    using fillna_no_missing [OF median_some_present [OF m that]] filled by simp
  from none some show ?thesis
    by blast
qed

theorem all_missing_column_stays_missing_witness:
  "preprocess_data example_parse example_table = Inr example_datasets \<and>
   ''Visibility(mi)'' \<in> set (columns example_table) \<and>
   ''Temperature(F)'' \<in> set (columns example_table) \<and>
   cells example_table ''Visibility(mi)'' = [NaN, NaN, NaN] \<and>
   median (cells example_table ''Visibility(mi)'') = Inr NaN \<and>
   list_all isna (cells (main_data example_datasets) ''Visibility(mi)'') \<and>
   cells example_table ''Severity'' = [Num 2, NaN, Num 3] \<and>
   \<not> list_ex isna (cells (main_data example_datasets) ''Severity'')"
proof -
  have vis: "''Visibility(mi)'' \<in> set (columns example_table)"
    and tmp: "''Temperature(F)'' \<in> set (columns example_table)"
    and sev: "''Severity'' \<in> set (columns example_table)"
    by (simp_all add: example_table_def)
  have vis_listed: "''Visibility(mi)'' \<in> {''Severity'', ''Start_Lat'', ''Start_Lng''} \<or>
      ''Visibility(mi)'' \<in> {''Temperature(F)'', ''Visibility(mi)''} \<and>
      ''Temperature(F)'' \<in> set (columns example_table)"
    using tmp by simp
  have sev_listed: "''Severity'' \<in> {''Severity'', ''Start_Lat'', ''Start_Lng''} \<or>
      ''Severity'' \<in> {''Temperature(F)'', ''Visibility(mi)''} \<and>
      ''Temperature(F)'' \<in> set (columns example_table)"
    by simp
  have c_vis: "cells example_table ''Visibility(mi)'' = [NaN, NaN, NaN]"
    by (simp add: cells_def example_table_def example_rows_def)
  have c_sev: "cells example_table ''Severity'' = [Num 2, NaN, Num 3]"
    by (simp add: cells_def example_table_def example_rows_def)
  have all: "list_all isna (cells example_table ''Visibility(mi)'')"
    unfolding c_vis by simp
  have some: "\<not> list_all isna (cells example_table ''Severity'')"
    unfolding c_sev by simp
  note t_vis = all_missing_column_stays_missing [OF example_runs vis vis_listed]
  note t_sev = all_missing_column_stays_missing [OF example_runs sev sev_listed]
  have a: "median (cells example_table ''Visibility(mi)'') = Inr NaN \<and>
      list_all isna (cells (main_data example_datasets) ''Visibility(mi)'')"
    by (rule mp [OF conjunct1 [OF t_vis] all])
  have b: "\<not> list_ex isna (cells (main_data example_datasets) ''Severity'')"
    by (rule mp [OF conjunct2 [OF t_sev] some])
  note a1 = conjunct1 [OF a] and a2 = conjunct2 [OF a]
  from example_runs vis tmp c_vis a1 a2 c_sev b show ?thesis
    by (intro conjI)
qed

subsection \<open>Grouping\<close>

lemma sum_group_lengths:
  "finite K \<Longrightarrow>
   (\<Sum>k\<in>K. length (filter (\<lambda>r. f r = k) rs)) = length (filter (\<lambda>r. f r \<in> K) rs)"
proof (induction rs)
  case Nil
  then show ?case by simp
next
  case (Cons r rs)
  have "(\<Sum>k\<in>K. length (filter (\<lambda>x. f x = k) (r # rs)))
      = (\<Sum>k\<in>K. (if f r = k then 1 else 0) + length (filter (\<lambda>x. f x = k) rs))"
    by (rule sum.cong) simp_all
  also have "\<dots> = (\<Sum>k\<in>K. if f r = k then 1 else 0) + (\<Sum>k\<in>K. length (filter (\<lambda>x. f x = k) rs))"
    by (rule sum.distrib)
  also from Cons.prems have "(\<Sum>k\<in>K. if f r = k then 1 else 0) = (if f r \<in> K then 1 else (0::nat))"
    by (simp add: sum.delta')
  finally show ?case
    using Cons.IH [OF Cons.prems] by simp
qed

lemma distinct_group_keys: "distinct (group_keys bys rs)"
  by (simp add: group_keys_def)

lemma set_group_keys:
  "set (group_keys bys rs) = {k \<in> key_of bys ` set rs. \<not> list_ex isna k}"
  by (auto simp: group_keys_def)

lemma group_sizes_total:
  "sum_list (map (\<lambda>k. length (group_rows bys rs k)) (group_keys bys rs))
     = length (filter (\<lambda>r. \<not> list_ex isna (key_of bys r)) rs)"
proof -
  let ?K = "set (group_keys bys rs)"
  have "sum_list (map (\<lambda>k. length (group_rows bys rs k)) (group_keys bys rs))
      = (\<Sum>k\<in>?K. length (filter (\<lambda>r. key_of bys r = k) rs))"
    using distinct_group_keys [of bys rs]
    by (simp add: sum_list_distinct_conv_sum_set group_rows_def)
  also have "\<dots> = length (filter (\<lambda>r. key_of bys r \<in> ?K) rs)"
    by (rule sum_group_lengths) simp
  also have "filter (\<lambda>r. key_of bys r \<in> ?K) rs = filter (\<lambda>r. \<not> list_ex isna (key_of bys r)) rs"
    by (rule filter_cong) (auto simp: set_group_keys)
  finally show ?thesis .
qed

lemma groupby_size_Inr:
  assumes "groupby_size bys name df = Inr g"
  shows "columns g = bys @ [name]"
    and "rows g = map (\<lambda>k. (key_row bys k)(name := Num (of_nat (length (group_rows bys (rows df) k)))))
                    (group_keys bys (rows df))"
    and "set bys \<subseteq> set (columns df)"
proof -
  from assms have g: "g = \<lparr>columns = bys @ [name],
      rows = map (\<lambda>k. (key_row bys k)(name := Num (of_nat (length (group_rows bys (rows df) k)))))
               (group_keys bys (rows df))\<rparr>" and req: "require_columns df bys = Inr ()"
    by (auto simp: groupby_size_def seq_Inr_iff)
  from g show "columns g = bys @ [name]" by simp
  from g show "rows g = map (\<lambda>k. (key_row bys k)(name := Num (of_nat (length (group_rows bys (rows df) k)))))
                    (group_keys bys (rows df))" by simp
  from req show "set bys \<subseteq> set (columns df)"
    by (induction bys) (auto split: if_splits)
qed

lemma nums_map_Num: "nums (map Num xs) = xs"
  by (induction xs) simp_all

lemma groupby_size_counts:
  assumes "groupby_size bys name df = Inr g"
  shows "cells g name = map (\<lambda>k. Num (of_nat (length (group_rows bys (rows df) k))))
                          (group_keys bys (rows df))"
  by (simp add: cells_def groupby_size_Inr(2) [OF assms] comp_def)

lemma sum_list_of_nat:
  "sum_list (map (\<lambda>k. of_nat (f k)) ks) = (of_nat (sum_list (map f ks)) :: rat)"
  by (induction ks) simp_all

lemma groupby_size_total:
  assumes "groupby_size bys name df = Inr g"
  shows "sum_list (nums (cells g name))
    = of_nat (length (filter (\<lambda>r. \<not> list_ex isna (key_of bys r)) (rows df)))"
proof -
  have "cells g name = map Num (map (\<lambda>k. of_nat (length (group_rows bys (rows df) k)))
      (group_keys bys (rows df)))"
    by (simp add: groupby_size_counts [OF assms] comp_def)
  then have "sum_list (nums (cells g name))
      = sum_list (map (\<lambda>k. of_nat (length (group_rows bys (rows df) k))) (group_keys bys (rows df)))"
    by (simp only: nums_map_Num)
  also have "\<dots> = of_nat (sum_list (map (\<lambda>k. length (group_rows bys (rows df) k))
      (group_keys bys (rows df))))"
    by (rule sum_list_of_nat)
  finally show ?thesis
    by (simp only: group_sizes_total)
qed

lemma groupby_mean_Inr:
  assumes "groupby_mean bys col name df = Inr g"
  shows "columns g = bys @ [name]"
    and "list_all2 (\<lambda>k r. \<exists>m. r = (key_row bys k)(name := m)) (group_keys bys (rows df)) (rows g)"
proof -
  let ?f = "\<lambda>k. seq (mean (map (\<lambda>r. r col) (group_rows bys (rows df) k)))
                  (\<lambda>m. Inr ((key_row bys k)(name := m)))"
  from assms obtain rs where rs: "traverse ?f (group_keys bys (rows df)) = Inr rs"
    and g: "g = \<lparr>columns = bys @ [name], rows = rs\<rparr>"
    by (auto simp: groupby_mean_def seq_Inr_iff)
  from g show "columns g = bys @ [name]" by simp
  from rs have "list_all2 (\<lambda>k r. ?f k = Inr r) (group_keys bys (rows df)) rs"
    by (simp add: traverse_Inr_iff)
  then have "list_all2 (\<lambda>k r. \<exists>m. r = (key_row bys k)(name := m)) (group_keys bys (rows df)) rs"
    by (rule list_all2_mono) (auto simp: seq_Inr_iff)
  with g show "list_all2 (\<lambda>k r. \<exists>m. r = (key_row bys k)(name := m))
      (group_keys bys (rows df)) (rows g)"
    by simp
qed

lemma key_row_single: "key_row [c] [v] = (\<lambda>_. NaN)(c := v)"
  by (simp add: key_row_def)

lemma single_keys: "k \<in> set (group_keys [c] rs) \<Longrightarrow> \<exists>v. k = [v]"
  by (auto simp: set_group_keys key_of_def)

lemma length_filter_list_all2:
  assumes "list_all2 R xs ys" and "\<And>x y. x \<in> set xs \<Longrightarrow> R x y \<Longrightarrow> Q y = P x"
  shows "length (filter Q ys) = length (filter P xs)"
  using assms by (induction rule: list_all2_induct) auto

lemma distinct_filter_eq_one:
  "distinct xs \<Longrightarrow> x \<in> set xs \<Longrightarrow> length (filter (\<lambda>y. y = x) xs) = 1"
  by (induction xs) (auto simp: filter_empty_conv)

lemma merge_Inr:
  assumes "merge l r on = Inr g"
  shows "rows g = concat (map (\<lambda>a. map (\<lambda>b c. if c \<in> set (columns l) then a c else b c)
      (filter (\<lambda>b. b on = a on) (rows r))) (rows l))"
    and "columns g = columns l @ filter (\<lambda>c. c \<noteq> on) (columns r)"
  using assms by (auto simp: merge_def split: if_splits)

lemma map_const_single: "length xs = 1 \<Longrightarrow> map (\<lambda>b. v) xs = [v]"
  by (cases xs) simp_all

lemma cells_merge_left:
  assumes "merge l r on = Inr g" and "c \<in> set (columns l)"
    and "\<And>a. a \<in> set (rows l) \<Longrightarrow> length (filter (\<lambda>b. b on = a on) (rows r)) = 1"
  shows "cells g c = cells l c"
proof -
  have "cells g c = concat (map (\<lambda>a. map (\<lambda>b. a c) (filter (\<lambda>b. b on = a on) (rows r))) (rows l))"
    using assms(2) by (simp add: cells_def merge_Inr(1) [OF assms(1)] map_concat comp_def)
  also have "\<dots> = concat (map (\<lambda>a. [a c]) (rows l))"
    using assms(3) by (intro arg_cong [where f = concat] map_cong refl map_const_single)
  also have "\<dots> = cells l c"
    by (induction "rows l" arbitrary: l) (simp_all add: cells_def)
  finally show ?thesis .
qed

lemma merge_size_mean_counts:
  assumes sc: "groupby_size [c] n1 df = Inr l" and ss: "groupby_mean [c] col n2 df = Inr r"
    and m: "merge l r c = Inr g" and ne: "c \<noteq> n1" "c \<noteq> n2"
  shows "cells g n1 = cells l n1"
proof (rule cells_merge_left [OF m])
  show "n1 \<in> set (columns l)"
    by (simp add: groupby_size_Inr(1) [OF sc])
next
  fix a
  assume "a \<in> set (rows l)"
  then obtain k where k: "k \<in> set (group_keys [c] (rows df))"
    and a: "a = (key_row [c] k)(n1 := Num (of_nat (length (group_rows [c] (rows df) k))))"
    by (auto simp: groupby_size_Inr(2) [OF sc])
  from single_keys [OF k] obtain v where v: "k = [v]" ..
  from a v ne(1) have av: "a c = v"
    by (simp add: key_row_single)
  have "length (filter (\<lambda>b. b c = v) (rows r))
      = length (filter (\<lambda>k'. k' = [v]) (group_keys [c] (rows df)))"
  proof (rule length_filter_list_all2 [OF groupby_mean_Inr(2) [OF ss]])
    fix k' b
    assume k': "k' \<in> set (group_keys [c] (rows df))"
      and ex: "\<exists>m. b = (key_row [c] k')(n2 := m)"
    from ex obtain m' where b: "b = (key_row [c] k')(n2 := m')" ..
    from single_keys [OF k'] obtain v' where v': "k' = [v']" ..
    from b v' ne(2) have "b c = v'"
      by (simp add: key_row_single)
    with v' show "(b c = v) = (k' = [v])"
      by auto
  qed
  also from k v have "\<dots> = 1"
    by (simp add: distinct_filter_eq_one distinct_group_keys)
  finally show "length (filter (\<lambda>b. b c = a c) (rows r)) = 1"
    by (simp add: av)
qed

lemma aggregate_state_data:
  assumes "aggregate df = Inr ds"
  shows "accident_count_total (state_data ds)
    = of_nat (length (filter (\<lambda>r. \<not> isna (r ''State'')) (rows df)))"
proof -
  from assms obtain sc ss st where
    sc: "groupby_size [''State''] ''Accident_Count'' df = Inr sc" and
    ss: "groupby_mean [''State''] ''Severity'' ''Avg_Severity'' df = Inr ss" and
    m: "merge sc ss ''State'' = Inr st" and st: "state_data ds = st"
    unfolding aggregate_def seq_Inr_iff by auto
  have ne: "''State'' \<noteq> ''Accident_Count''" "''State'' \<noteq> ''Avg_Severity''"
    by simp_all
  have "cells st ''Accident_Count'' = cells sc ''Accident_Count''"
    by (rule merge_size_mean_counts [OF sc ss m ne])
  then have "accident_count_total st = sum_list (nums (cells sc ''Accident_Count''))"
    by (simp only: accident_count_total_def)
  also have "\<dots> = of_nat (length (filter (\<lambda>r. \<not> list_ex isna (key_of [''State''] r)) (rows df)))"
    by (rule groupby_size_total [OF sc])
  also have "(\<lambda>r. \<not> list_ex isna (key_of [''State''] r)) = (\<lambda>r. \<not> isna (r ''State''))"
    by (simp add: key_of_def)
  finally show ?thesis
    by (simp only: st)
qed

text \<open>
  C4, as the code has it. The per-state accident counts add up to the number
  of rows of the enriched table that have a state: \<open>groupby\<close> leaves out the rows
  whose \<open>State\<close> is missing. When no row lacks its state, the sum is the number
  of rows of the enriched table.
\<close>

theorem state_counts_sum:
  assumes "preprocess_data parse df = Inr ds"
  shows "accident_count_total (state_data ds)
      = of_nat (length (filter (\<lambda>r. \<not> isna (r ''State'')) (rows (main_data ds)))) \<and>
    (\<not> list_ex isna (cells (main_data ds) ''State'') \<longrightarrow>
       accident_count_total (state_data ds) = of_nat (length (rows (main_data ds))))"
proof -
  from preprocess_data_Inr [OF assms] have "aggregate (main_data ds) = Inr ds"
    by (rule conjunct2)
  then have total: "accident_count_total (state_data ds)
      = of_nat (length (filter (\<lambda>r. \<not> isna (r ''State'')) (rows (main_data ds))))"
    by (rule aggregate_state_data)
  have "filter (\<lambda>r. \<not> isna (r ''State'')) (rows (main_data ds)) = rows (main_data ds)"
    if "\<not> list_ex isna (cells (main_data ds) ''State'')"
    using that by (simp add: cells_def list_ex_iff)
  with total show ?thesis
    by simp
qed

lemma example_with_states_runs:
  "\<not> isl (preprocess_data example_parse example_table_with_states)"
  by code_simp

theorem state_counts_sum_witness:
  "preprocess_data example_parse example_table_with_states
     = Inr (projr (preprocess_data example_parse example_table_with_states)) \<and>
   \<not> list_ex isna (cells (main_data (projr (preprocess_data example_parse example_table_with_states)))
     ''State'') \<and>
   length (rows (main_data (projr (preprocess_data example_parse example_table_with_states)))) = 2 \<and>
   accident_count_total (state_data (projr (preprocess_data example_parse example_table_with_states)))
     = 2"
proof -
  let ?ds = "projr (preprocess_data example_parse example_table_with_states)"
  from example_with_states_runs
  have run: "preprocess_data example_parse example_table_with_states = Inr ?ds"
    by simp
  have states: "\<not> list_ex isna (cells (main_data ?ds) ''State'')"
    by code_simp
  have len: "length (rows (main_data ?ds)) = 2"
    by code_simp
  from len have "rat_of_nat (length (rows (main_data ?ds))) = 2"
    by simp
  with mp [OF conjunct2 [OF state_counts_sum [OF run]] states]
  have "accident_count_total (state_data ?ds) = 2"
    by simp
  with run states len show ?thesis
    by (intro conjI)
qed

text \<open>
  C4 as stated fails on the small input: one of its three records has no
  state, and the per-state counts add up to 2.
\<close>

theorem state_counts_sum_not_total:
  "preprocess_data example_parse example_table = Inr example_datasets \<and>
   length (rows (main_data example_datasets)) = 3 \<and>
   accident_count_total (state_data example_datasets) = 2 \<and>
   accident_count_total (state_data example_datasets)
     \<noteq> of_nat (length (rows (main_data example_datasets)))"
proof -
  have len: "length (rows (main_data example_datasets)) = 3"
    by code_simp
  have total: "accident_count_total (state_data example_datasets) = 2"
    by code_simp
  from len total have "accident_count_total (state_data example_datasets)
      \<noteq> of_nat (length (rows (main_data example_datasets)))"
    by simp
  with example_runs len total show ?thesis
    by (intro conjI)
qed

lemma enrich_frame:
  assumes "enrich parse df = Inr df'"
  shows "frame enrich_touched df df'"
proof -
  from enrich_Inr [OF assms] obtain d1 d2 d3 where
    s1: "convert_timestamps parse df = Inr d1" and
    s2: "extract_time_features d1 = Inr d2" and
    s3: "impute (numerical_cols d2) d2 = Inr d3" and
    s4: "categorize_weather d3 = Inr df'"
    by blast
  note f1 = convert_timestamps_Inr [OF s1]
  note f2 = extract_time_features_Inr(1) [OF s2]
  note f3 = conjunct1 [OF impute_Inr [OF s3 distinct_numerical_cols]]
  note f4 = categorize_weather_Inr [OF s4]
  have sub: "set (numerical_cols d2)
      \<subseteq> {''Severity'', ''Start_Lat'', ''Start_Lng'', ''Temperature(F)'', ''Visibility(mi)''}"
    by (cases "''Temperature(F)'' \<in> set (columns d2)") (simp_all add: numerical_cols_def)
  note f3' = frame_mono [OF f3 sub]
  note f = frame_trans [OF frame_trans [OF frame_trans [OF f1 f2] f3'] f4]
  then show ?thesis
    by (simp only: enrich_touched_def)
qed

lemma City_untouched: "''City'' \<notin> enrich_touched"
  by (simp add: enrich_touched_def)

lemma enrich_City:
  assumes "enrich parse df = Inr df'"
  shows "(''City'' \<in> set (columns df')) = (''City'' \<in> set (columns df))"
proof
  assume "''City'' \<in> set (columns df')"
  then show "''City'' \<in> set (columns df)"
    by (rule frame_column_back [OF enrich_frame [OF assms] _ City_untouched])
next
  assume "''City'' \<in> set (columns df)"
  then show "''City'' \<in> set (columns df')"
    by (rule frame_column_kept [OF enrich_frame [OF assms]])
qed

subsection \<open>The city table\<close>

lemma cell_key_Num_le: "(cell_key (Num x) \<le> cell_key (Num y)) = (x \<le> y)"
  by auto

lemma sort_values_desc_Inr:
  assumes "sort_values_desc col df = Inr g"
  shows "columns g = columns df"
    and "rows g = rev (sort_key (\<lambda>r. cell_key (r col)) (rev (rows df)))"
  using assms by (auto simp: sort_values_desc_def seq_Inr_iff)

lemma sorted_desc_rev_sort:
  "sorted_wrt (\<lambda>a b. cell_key b \<le> cell_key a)
     (map (\<lambda>r. r col) (rev (sort_key (\<lambda>r. cell_key (r col)) xs)))"
proof -
  have "sorted (map (\<lambda>r. cell_key (r col)) (sort_key (\<lambda>r. cell_key (r col)) xs))"
    by (rule sorted_sort_key)
  then have "sorted_wrt (\<lambda>a b. cell_key a \<le> cell_key b)
      (map (\<lambda>r. r col) (sort_key (\<lambda>r. cell_key (r col)) xs))"
    by (simp add: sorted_wrt_map comp_def)
  then have "sorted_wrt (\<lambda>a b. cell_key b \<le> cell_key a)
      (rev (map (\<lambda>r. r col) (sort_key (\<lambda>r. cell_key (r col)) xs)))"
    by (simp add: sorted_wrt_rev)
  then show ?thesis
    by (simp add: rev_map)
qed

lemma aggregate_city_data:
  assumes "aggregate df = Inr ds"
  shows "''City'' \<in> set (columns df) \<Longrightarrow>
      \<exists>g. groupby_size [''State'', ''City''] ''Accident_Count'' df = Inr g \<and>
        city_data ds = \<lparr>columns = columns g,
          rows = take 50 (rev (sort_key (\<lambda>r. cell_key (r ''Accident_Count'')) (rev (rows g))))\<rparr>"
    and "''City'' \<notin> set (columns df) \<Longrightarrow> city_data ds = DataFrame"
proof -
  from assms obtain city where city: "(if ''City'' \<in> set (columns df)
         then seq (groupby_size [''State'', ''City''] ''Accident_Count'' df) (\<lambda>city.
              seq (sort_values_desc ''Accident_Count'' city) (\<lambda>city.
              Inr (head 50 city)))
         else Inr DataFrame) = Inr city" and ds: "city_data ds = city"
    unfolding aggregate_def seq_Inr_iff by auto
  show "city_data ds = DataFrame" if "''City'' \<notin> set (columns df)"
    using that city ds by simp
  show "\<exists>g. groupby_size [''State'', ''City''] ''Accident_Count'' df = Inr g \<and>
        city_data ds = \<lparr>columns = columns g,
          rows = take 50 (rev (sort_key (\<lambda>r. cell_key (r ''Accident_Count'')) (rev (rows g))))\<rparr>"
    if present: "''City'' \<in> set (columns df)"
  proof -
    from city present obtain g s where
      g: "groupby_size [''State'', ''City''] ''Accident_Count'' df = Inr g" and
      s: "sort_values_desc ''Accident_Count'' g = Inr s" and c: "city = head 50 s"
      by (auto simp: seq_Inr_iff)
    from c ds sort_values_desc_Inr [OF s] g show ?thesis
      by (simp add: head_def)
  qed
qed

lemma groupby_size_counts_are_numbers:
  assumes "groupby_size bys name df = Inr g" and "r \<in> set (rows g)"
  shows "\<exists>n. r name = Num (of_nat n)"
  using assms(2) by (auto simp: groupby_size_Inr(2) [OF assms(1)])

lemma descending_counts:
  assumes "sorted_wrt (\<lambda>a b. cell_key b \<le> cell_key a) cs"
    and "\<forall>c \<in> set cs. \<exists>n. c = Num (of_nat n)"
  shows "\<exists>ns. cs = map (\<lambda>n. Num (of_nat n)) ns \<and> sorted_wrt (\<lambda>a b. b \<le> a) ns"
proof -
  from assms(2) obtain ns :: "nat list" where ns: "cs = map (\<lambda>n. Num (of_nat n)) ns"
    by (auto simp: ex_map_conv [symmetric])
  from assms(1) have "sorted_wrt (\<lambda>a b. b \<le> a) ns"
    unfolding ns by (simp only: sorted_wrt_map cell_key_Num_le of_nat_le_iff)
  with ns show ?thesis
    by blast
qed

lemma city_table_sorted:
  assumes "groupby_size bys name df = Inr g"
  shows "\<exists>ns. map (\<lambda>r. r name) (take n (rev (sort_key (\<lambda>r. cell_key (r name)) (rev (rows g)))))
        = map (\<lambda>n. Num (of_nat n)) ns \<and> sorted_wrt (\<lambda>a b. b \<le> a) ns"
proof (rule descending_counts)
  let ?xs = "rev (sort_key (\<lambda>r. cell_key (r name)) (rev (rows g)))"
  have "sorted_wrt (\<lambda>a b. cell_key b \<le> cell_key a) (take n (map (\<lambda>r. r name) ?xs))"
    by (rule sorted_wrt_take) (rule sorted_desc_rev_sort)
  then show "sorted_wrt (\<lambda>a b. cell_key b \<le> cell_key a) (map (\<lambda>r. r name) (take n ?xs))"
    by (simp add: take_map)
  show "\<forall>c \<in> set (map (\<lambda>r. r name) (take n ?xs)). \<exists>k. c = Num (of_nat k)"
  proof
    fix c
    assume "c \<in> set (map (\<lambda>r. r name) (take n ?xs))"
    then obtain r where r: "r \<in> set (take n ?xs)" and c: "c = r name"
      by auto
    from r have "r \<in> set ?xs"
      by (rule in_set_takeD)
    then have "r \<in> set (rows g)"
      by simp
    from groupby_size_counts_are_numbers [OF assms this] c show "\<exists>k. c = Num (of_nat k)"
      by simp
  qed
qed

text \<open>
  C8. When the input has a \<open>City\<close> column, the counts of the city table are
  in descending order and the table has at most 50 rows; when it has none, the
  city table is the empty table \<open>pd.DataFrame()\<close>.
\<close>

theorem city_table_top_50:
  assumes "preprocess_data parse df = Inr ds"
  shows "(''City'' \<in> set (columns df) \<longrightarrow>
      (\<exists>ns. cells (city_data ds) ''Accident_Count'' = map (\<lambda>n. Num (of_nat n)) ns \<and>
            sorted_wrt (\<lambda>a b. b \<le> a) ns) \<and>
      length (rows (city_data ds)) \<le> 50) \<and>
    (''City'' \<notin> set (columns df) \<longrightarrow> city_data ds = DataFrame \<and> df_empty (city_data ds))"
proof (intro conjI impI)
  note parts = preprocess_data_Inr [OF assms]
  note e = conjunct1 [OF parts] and a = conjunct2 [OF parts]
  {
    assume "''City'' \<in> set (columns df)"
    then have "''City'' \<in> set (columns (main_data ds))"
      by (simp add: enrich_City [OF e])
    from aggregate_city_data(1) [OF a this] obtain g where
      g: "groupby_size [''State'', ''City''] ''Accident_Count'' (main_data ds) = Inr g" and
      c: "city_data ds = \<lparr>columns = columns g,
          rows = take 50 (rev (sort_key (\<lambda>r. cell_key (r ''Accident_Count'')) (rev (rows g))))\<rparr>"
      by (elim exE conjE)
    from city_table_sorted [OF g, of 50] c
    show "\<exists>ns. cells (city_data ds) ''Accident_Count'' = map (\<lambda>n. Num (of_nat n)) ns \<and>
            sorted_wrt (\<lambda>a b. b \<le> a) ns"
      by (simp add: cells_def)
    from c show "length (rows (city_data ds)) \<le> 50"
      by simp
  }
  {
    assume "''City'' \<notin> set (columns df)"
    then have "''City'' \<notin> set (columns (main_data ds))"
      by (simp add: enrich_City [OF e])
    from aggregate_city_data(2) [OF a this] show "city_data ds = DataFrame" .
    then show "df_empty (city_data ds)"
      by (simp add: df_empty_def DataFrame_def)
  }
qed

lemma example_without_city_runs:
  "\<not> isl (preprocess_data example_parse example_table_without_city)"
  by code_simp

theorem city_table_top_50_witness:
  "preprocess_data example_parse example_table = Inr example_datasets \<and>
   ''City'' \<in> set (columns example_table) \<and>
   cells (city_data example_datasets) ''Accident_Count'' = [Num 2] \<and>
   length (rows (city_data example_datasets)) \<le> 50 \<and>
   preprocess_data example_parse example_table_without_city
     = Inr (projr (preprocess_data example_parse example_table_without_city)) \<and>
   ''City'' \<notin> set (columns example_table_without_city) \<and>
   city_data (projr (preprocess_data example_parse example_table_without_city)) = DataFrame"
proof -
  let ?ds = "projr (preprocess_data example_parse example_table_without_city)"
  have city: "''City'' \<in> set (columns example_table)"
    by (simp add: example_table_def)
  have no_city: "''City'' \<notin> set (columns example_table_without_city)"
    by (simp add: example_table_without_city_def example_table_def)
  from example_without_city_runs
  have run: "preprocess_data example_parse example_table_without_city = Inr ?ds"
    by simp
  have counts: "cells (city_data example_datasets) ''Accident_Count'' = [Num 2]"
    by code_simp
  note t1 = mp [OF conjunct1 [OF city_table_top_50 [OF example_runs]] city]
  note t2 = mp [OF conjunct2 [OF city_table_top_50 [OF run]] no_city]
  from example_runs city counts conjunct2 [OF t1] run no_city conjunct1 [OF t2]
  show ?thesis
    by (intro conjI)
qed

subsection \<open>Runs that raise nothing\<close>

lemma is_datetime_cases: "is_datetime c \<Longrightarrow> c = NaN \<or> (\<exists>t. c = Time t)"
  by (cases c) simp_all

lemma traverse_succeeds_with:
  "list_all (\<lambda>x. \<exists>y. f x = Inr y \<and> P y) xs \<Longrightarrow> \<exists>ys. traverse f xs = Inr ys \<and> list_all P ys"
  by (induction xs) auto

lemma to_datetime_succeeds:
  assumes "\<not> Option.is_none (parse cs)"
  shows "\<exists>vs. to_datetime parse cs = Inr vs \<and> list_all is_datetime vs \<and> length vs = length cs"
proof -
  from assms obtain ts where ts: "parse cs = Some ts"
    by (cases "parse cs") simp_all
  let ?vs = "map (\<lambda>i. case ts i of None \<Rightarrow> NaN | Some t \<Rightarrow> Time t) [0..<length cs]"
  have "list_all is_datetime ?vs"
    by (simp add: list_all_iff split: option.splits)
  with ts show ?thesis
    by (simp add: to_datetime_def)
qed

lemma duration_minutes_succeeds:
  "is_datetime e \<Longrightarrow> is_datetime s \<Longrightarrow> \<exists>d. duration_minutes e s = Inr d"
  by (cases e; cases s) simp_all

lemma durations_succeed:
  assumes "list_all is_datetime es" and "list_all is_datetime ss"
  shows "\<exists>ds. traverse (\<lambda>(e, s). duration_minutes e s) (zip es ss) = Inr ds \<and>
    length ds = length (zip es ss)"
proof -
  have "list_all (\<lambda>x. \<exists>y. (\<lambda>(e, s). duration_minutes e s) x = Inr y) (zip es ss)"
    unfolding list_all_iff
  proof
    fix x
    assume x: "x \<in> set (zip es ss)"
    obtain e s where es: "x = (e, s)"
      by (cases x)
    from x es have "e \<in> set es" "s \<in> set ss"
      by (auto dest: set_zip_leftD set_zip_rightD)
    with assms have "is_datetime e" "is_datetime s"
      by (simp_all add: list_all_iff)
    with es show "\<exists>y. (\<lambda>(e, s). duration_minutes e s) x = Inr y"
      by (simp add: duration_minutes_succeeds)
  qed
  from traverse_succeeds [OF this] obtain ds where
    ds: "traverse (\<lambda>(e, s). duration_minutes e s) (zip es ss) = Inr ds" ..
  with traverse_length [OF ds] show ?thesis
    by simp
qed

lemma convert_timestamps_succeeds:
  assumes st: "''Start_Time'' \<in> set (columns df)"
    and st_ok: "\<not> Option.is_none (parse (cells df ''Start_Time''))"
    and en_ok: "''End_Time'' \<in> set (columns df) \<longrightarrow>
      \<not> Option.is_none (parse (cells df ''End_Time''))"
  shows "\<exists>d'. convert_timestamps parse df = Inr d' \<and> list_all is_datetime (cells d' ''Start_Time'')"
proof -
  from to_datetime_succeeds [where parse = parse and cs = "cells df ''Start_Time''", OF st_ok]
  obtain vs where
    vs: "to_datetime parse (cells df ''Start_Time'') = Inr vs" and
    vs_dt: "list_all is_datetime vs" and vs_len: "length vs = length (rows df)"
    by auto
  let ?d1 = "assign df ''Start_Time'' vs"
  have s1: "derive ''Start_Time'' ''Start_Time'' (to_datetime parse) df = Inr ?d1"
    using st vs by (rule derive_succeeds)
  have cols1: "set (columns ?d1) = set (columns df)"
    using st by (auto simp: set_columns_assign)
  have len1: "length (rows ?d1) = length (rows df)"
    using vs_len by (rule length_rows_assign)
  have st1: "cells ?d1 ''Start_Time'' = vs"
    using vs_len by (rule cells_assign_same)
  show ?thesis
  proof (cases "''End_Time'' \<in> set (columns df)")
    case False
    with cols1 have "''End_Time'' \<notin> set (columns ?d1)"
      by simp
    with s1 have "convert_timestamps parse df = Inr ?d1"
      by (simp add: convert_timestamps_def)
    with st1 vs_dt show ?thesis
      by simp
  next
    case True
    with cols1 have en1: "''End_Time'' \<in> set (columns ?d1)"
      by simp
    have "cells ?d1 ''End_Time'' = cells df ''End_Time''"
      using vs_len by (rule cells_assign_other) simp
    with en_ok True have "\<not> Option.is_none (parse (cells ?d1 ''End_Time''))"
      by simp
    from to_datetime_succeeds [where parse = parse and cs = "cells ?d1 ''End_Time''", OF this] len1
    obtain es where
      es: "to_datetime parse (cells ?d1 ''End_Time'') = Inr es" and
      es_dt: "list_all is_datetime es" and es_len: "length es = length (rows ?d1)"
      by auto
    let ?d2 = "assign ?d1 ''End_Time'' es"
    have s2: "derive ''End_Time'' ''End_Time'' (to_datetime parse) ?d1 = Inr ?d2"
      using en1 es by (rule derive_succeeds)
    have len2: "length (rows ?d2) = length (rows ?d1)"
      using es_len by (rule length_rows_assign)
    have en2: "cells ?d2 ''End_Time'' = es"
      using es_len by (rule cells_assign_same)
    have st2: "cells ?d2 ''Start_Time'' = vs"
      using cells_assign_other [OF es_len, of "''Start_Time''" "''End_Time''"] st1 by simp
    have in2: "''End_Time'' \<in> set (columns ?d2)" "''Start_Time'' \<in> set (columns ?d2)"
      using st cols1 by (simp_all add: set_columns_assign)
    from durations_succeed [OF es_dt vs_dt] obtain ds where
      ds: "traverse (\<lambda>(e, s). duration_minutes e s) (zip es vs) = Inr ds" and
      ds_len: "length ds = length (zip es vs)"
      by auto
    from ds_len es_len vs_len len1 len2 have ds_len2: "length ds = length (rows ?d2)"
      by simp
    let ?d3 = "assign ?d2 ''Duration_Minutes'' ds"
    have col_en: "column ?d2 ''End_Time'' = Inr es"
      using in2(1) en2 by (simp add: column_def)
    have col_st: "column ?d2 ''Start_Time'' = Inr vs"
      using in2(2) st2 by (simp add: column_def)
    have "convert_timestamps parse df = Inr ?d3"
      using s1 en1 s2 col_en col_st ds by (simp add: convert_timestamps_def)
    moreover have "cells ?d3 ''Start_Time'' = vs"
      using cells_assign_other [OF ds_len2, of "''Start_Time''" "''Duration_Minutes''"] st2
      by simp
    ultimately show ?thesis
      using vs_dt by simp
  qed
qed

lemma dt1_succeeds: "is_datetime c \<Longrightarrow> \<exists>v. dt1 field c = Inr v \<and> \<not> non_numeric v"
  by (cases c) simp_all

lemma dt_succeeds:
  assumes "list_all is_datetime cs"
  shows "\<exists>vs. dt field cs = Inr vs \<and> list_all (\<lambda>v. \<not> non_numeric v) vs \<and> length vs = length cs"
proof -
  from assms have "list_all (\<lambda>c. \<exists>v. dt1 field c = Inr v \<and> \<not> non_numeric v) cs"
    by (simp add: list_all_iff dt1_succeeds)
  from traverse_succeeds_with [OF this] obtain vs where
    vs: "traverse (dt1 field) cs = Inr vs" "list_all (\<lambda>v. \<not> non_numeric v) vs"
    by blast
  with traverse_length [OF vs(1)] show ?thesis
    by (simp add: dt_def)
qed

lemma weekend_flag_succeeds: "\<not> non_numeric c \<Longrightarrow> \<exists>w. weekend_flag c = Inr w"
  by (cases c) simp_all

lemma derive_dt_succeeds:
  assumes src: "src \<in> set (columns df)" and ok: "list_all is_datetime (cells df src)"
    and ne: "src \<noteq> target"
  shows "\<exists>d'. derive target src (dt field) df = Inr d' \<and> src \<in> set (columns d') \<and>
    list_all is_datetime (cells d' src) \<and> target \<in> set (columns d') \<and>
    list_all (\<lambda>v. \<not> non_numeric v) (cells d' target)"
proof -
  from dt_succeeds [OF ok] obtain vs where
    vs: "dt field (cells df src) = Inr vs" and num: "list_all (\<lambda>v. \<not> non_numeric v) vs"
    and len: "length vs = length (rows df)"
    by auto
  let ?d = "assign df target vs"
  have "derive target src (dt field) df = Inr ?d"
    using src vs by (rule derive_succeeds)
  moreover have "src \<in> set (columns ?d)" "target \<in> set (columns ?d)"
    using src by (simp_all add: set_columns_assign)
  moreover have "cells ?d src = cells df src"
    using len ne by (rule cells_assign_other)
  moreover have "cells ?d target = vs"
    using len by (rule cells_assign_same)
  ultimately show ?thesis
    using ok num by simp
qed

lemma extract_time_features_succeeds:
  assumes st: "''Start_Time'' \<in> set (columns df)"
    and ok: "list_all is_datetime (cells df ''Start_Time'')"
  shows "\<exists>d'. extract_time_features df = Inr d'"
proof -
  from derive_dt_succeeds [OF st ok, of "''Year''" year] obtain d1 where
    s1: "derive ''Year'' ''Start_Time'' (dt year) df = Inr d1" and
    c1: "''Start_Time'' \<in> set (columns d1)" and o1: "list_all is_datetime (cells d1 ''Start_Time'')"
    by auto
  from derive_dt_succeeds [OF c1 o1, of "''Month''" month] obtain d2 where
    s2: "derive ''Month'' ''Start_Time'' (dt month) d1 = Inr d2" and
    c2: "''Start_Time'' \<in> set (columns d2)" and o2: "list_all is_datetime (cells d2 ''Start_Time'')"
    by auto
  from derive_dt_succeeds [OF c2 o2, of "''Day''" day] obtain d3 where
    s3: "derive ''Day'' ''Start_Time'' (dt day) d2 = Inr d3" and
    c3: "''Start_Time'' \<in> set (columns d3)" and o3: "list_all is_datetime (cells d3 ''Start_Time'')"
    by auto
  from derive_dt_succeeds [OF c3 o3, of "''Hour''" hour] obtain d4 where
    s4: "derive ''Hour'' ''Start_Time'' (dt hour) d3 = Inr d4" and
    c4: "''Start_Time'' \<in> set (columns d4)" and o4: "list_all is_datetime (cells d4 ''Start_Time'')"
    by auto
  from derive_dt_succeeds [OF c4 o4, of "''DayOfWeek''" dayofweek] obtain d5 where
    s5: "derive ''DayOfWeek'' ''Start_Time'' (dt dayofweek) d4 = Inr d5" and
    c5: "''DayOfWeek'' \<in> set (columns d5)" and
    o5: "list_all (\<lambda>v. \<not> non_numeric v) (cells d5 ''DayOfWeek'')"
    by auto
  from o5 have "list_all (\<lambda>c. \<exists>w. weekend_flag c = Inr w) (cells d5 ''DayOfWeek'')"
    by (simp add: list_all_iff weekend_flag_succeeds)
  from traverse_succeeds [OF this] obtain ws where
    ws: "traverse weekend_flag (cells d5 ''DayOfWeek'') = Inr ws" ..
  have s6: "derive ''Weekend'' ''DayOfWeek'' (traverse weekend_flag) d5
      = Inr (assign d5 ''Weekend'' ws)"
    using c5 ws by (rule derive_succeeds)
  from s1 s2 s3 s4 s5 s6 show ?thesis
    by (simp add: extract_time_features_def)
qed

lemma middle_numeric: "\<not> non_numeric (middle xs)"
  by (simp add: middle_def Let_def)

lemma median_numeric: "median cs = Inr m \<Longrightarrow> \<not> non_numeric m"
  by (auto simp: median_def middle_numeric split: if_splits)

lemma fillna_numeric:
  "\<not> non_numeric m \<Longrightarrow> \<not> list_ex non_numeric cs \<Longrightarrow> \<not> list_ex non_numeric (fillna m cs)"
  by (induction cs) (simp_all add: fillna_def)

lemma impute_succeeds:
  assumes "\<forall>c \<in> set cols. c \<in> set (columns df) \<longrightarrow> \<not> list_ex non_numeric (cells df c)"
    and "distinct cols"
  shows "\<exists>df'. impute cols df = Inr df'"
  using assms
proof (induction cols arbitrary: df)
  case Nil
  then show ?case by simp
next
  case (Cons col cols)
  from Cons.prems(2) have dist: "distinct cols" and fresh: "col \<notin> set cols"
    by simp_all
  show ?case
  proof (cases "col \<in> set (columns df)")
    case False
    from Cons.prems(1) have "\<forall>c \<in> set cols. c \<in> set (columns df) \<longrightarrow>
        \<not> list_ex non_numeric (cells df c)"
      by simp
    from Cons.IH [OF this dist] False show ?thesis
      by simp
  next
    case True
    with Cons.prems(1) have "\<not> list_ex non_numeric (cells df col)"
      by simp
    from median_total [OF this] obtain m where m: "median (cells df col) = Inr m" ..
    let ?d1 = "assign df col (fillna m (cells df col))"
    have len: "length (fillna m (cells df col)) = length (rows df)"
      by (simp add: fillna_def)
    from True have cols1: "set (columns ?d1) = set (columns df)"
      by (auto simp: set_columns_assign)
    have "\<forall>c \<in> set cols. c \<in> set (columns ?d1) \<longrightarrow> \<not> list_ex non_numeric (cells ?d1 c)"
    proof (intro ballI impI)
      fix c
      assume c: "c \<in> set cols" "c \<in> set (columns ?d1)"
      with fresh have "c \<noteq> col" by auto
      then have "cells ?d1 c = cells df c"
        using len by (simp add: cells_assign_other)
      with Cons.prems(1) c cols1 show "\<not> list_ex non_numeric (cells ?d1 c)"
        by simp
    qed
    from Cons.IH [OF this dist] obtain df' where "impute cols ?d1 = Inr df'" ..
    with True m show ?thesis
      by (simp add: column_def)
  qed
qed

lemma map_weather_succeeds: "text_or_missing c \<Longrightarrow> \<exists>w. map_weather c = Inr w"
  by (cases c) simp_all

lemma categorize_weather_succeeds:
  assumes "''Weather_Condition'' \<in> set (columns df) \<longrightarrow>
      list_all text_or_missing (cells df ''Weather_Condition'')"
  shows "\<exists>d'. categorize_weather df = Inr d'"
proof (cases "''Weather_Condition'' \<in> set (columns df)")
  case False
  then show ?thesis
    by (simp add: categorize_weather_def)
next
  case True
  with assms have "list_all (\<lambda>c. \<exists>w. map_weather c = Inr w) (cells df ''Weather_Condition'')"
    by (simp add: list_all_iff map_weather_succeeds)
  from traverse_succeeds [OF this] obtain ws where
    "traverse map_weather (cells df ''Weather_Condition'') = Inr ws" ..
  with True show ?thesis
    by (simp add: categorize_weather_def derive_def column_def)
qed

lemma numerical_cols_subset:
  "set (numerical_cols d)
    \<subseteq> set [''Severity'', ''Start_Lat'', ''Start_Lng'', ''Temperature(F)'', ''Visibility(mi)'']"
  by (cases "''Temperature(F)'' \<in> set (columns d)") (simp_all add: numerical_cols_def)

lemma five_names:
  assumes "c \<in> set [''Severity'', ''Start_Lat'', ''Start_Lng'', ''Temperature(F)'', ''Visibility(mi)'']"
  shows "c \<notin> {''Start_Time'', ''End_Time'', ''Duration_Minutes''}"
    and "c \<notin> {''Year'', ''Month'', ''Day'', ''Hour'', ''DayOfWeek'', ''Weekend''}"
proof -
  from assms have "c \<in> {''Severity'', ''Start_Lat'', ''Start_Lng''} \<or>
      c \<in> {''Temperature(F)'', ''Visibility(mi)''} \<and> True"
    by simp
  from imputed_names(1,2) [OF this]
  show "c \<notin> {''Start_Time'', ''End_Time'', ''Duration_Minutes''}"
    and "c \<notin> {''Year'', ''Month'', ''Day'', ''Hour'', ''DayOfWeek'', ''Weekend''}"
    by this+
qed

lemma Weather_Condition_names:
  "''Weather_Condition'' \<notin> {''Start_Time'', ''End_Time'', ''Duration_Minutes''}"
  "''Weather_Condition'' \<notin> {''Year'', ''Month'', ''Day'', ''Hour'', ''DayOfWeek'', ''Weekend''}"
  "''Weather_Condition''
    \<notin> set [''Severity'', ''Start_Lat'', ''Start_Lng'', ''Temperature(F)'', ''Visibility(mi)'']"
  by simp_all

lemma well_formed_parts:
  assumes "well_formed parse df"
  shows "''ID'' \<in> set (columns df)" and "''Severity'' \<in> set (columns df)"
    and "''Start_Time'' \<in> set (columns df)" and "''State'' \<in> set (columns df)"
    and "\<not> Option.is_none (parse (cells df ''Start_Time''))"
    and "''End_Time'' \<in> set (columns df) \<longrightarrow>
      \<not> Option.is_none (parse (cells df ''End_Time''))"
    and "\<forall>col \<in> set [''Severity'', ''Start_Lat'', ''Start_Lng'', ''Temperature(F)'',
        ''Visibility(mi)'']. col \<in> set (columns df) \<longrightarrow> \<not> list_ex non_numeric (cells df col)"
    and "''Weather_Condition'' \<in> set (columns df) \<longrightarrow>
      list_all text_or_missing (cells df ''Weather_Condition'')"
  using assms unfolding well_formed_def list_all_iff by simp_all

lemma enrich_succeeds:
  assumes wf: "well_formed parse df"
  shows "\<exists>df'. enrich parse df = Inr df'"
proof -
  note p = well_formed_parts [OF wf]
  from convert_timestamps_succeeds [OF p(3) p(5) p(6)] obtain d1 where
    s1: "convert_timestamps parse df = Inr d1" and
    dt1: "list_all is_datetime (cells d1 ''Start_Time'')"
    by auto
  note f1 = convert_timestamps_Inr [OF s1]
  have st1: "''Start_Time'' \<in> set (columns d1)"
    by (rule frame_column_kept [OF f1 p(3)])
  from extract_time_features_succeeds [OF st1 dt1] obtain d2 where
    s2: "extract_time_features d1 = Inr d2" ..
  note f2 = extract_time_features_Inr(1) [OF s2]
  have "\<forall>c \<in> set (numerical_cols d2). c \<in> set (columns d2) \<longrightarrow>
      \<not> list_ex non_numeric (cells d2 c)"
  proof (intro ballI impI)
    fix c
    assume c: "c \<in> set (numerical_cols d2)" and present: "c \<in> set (columns d2)"
    from c numerical_cols_subset have five:
      "c \<in> set [''Severity'', ''Start_Lat'', ''Start_Lng'', ''Temperature(F)'', ''Visibility(mi)'']"
      by (rule subsetD [rotated])
    note n = five_names [OF five]
    have "c \<in> set (columns df)"
      by (rule frame_column_back [OF f1 frame_column_back [OF f2 present n(2)] n(1)])
    with p(7) five have "\<not> list_ex non_numeric (cells df c)"
      by (simp only: ball_simps) blast
    moreover have "cells d2 c = cells df c"
      using frame_cells [OF f1 n(1)] frame_cells [OF f2 n(2)] by simp
    ultimately show "\<not> list_ex non_numeric (cells d2 c)"
      by simp
  qed
  from impute_succeeds [OF this distinct_numerical_cols] obtain d3 where
    s3: "impute (numerical_cols d2) d2 = Inr d3" ..
  note i3 = impute_Inr [OF s3 distinct_numerical_cols]
  note f3 = frame_mono [OF conjunct1 [OF i3] numerical_cols_subset]
  have "''Weather_Condition'' \<in> set (columns d3) \<longrightarrow>
      list_all text_or_missing (cells d3 ''Weather_Condition'')"
  proof
    assume present: "''Weather_Condition'' \<in> set (columns d3)"
    note w = Weather_Condition_names
    have "''Weather_Condition'' \<in> set (columns df)"
      by (rule frame_column_back [OF f1 frame_column_back [OF f2
            frame_column_back [OF f3 present w(3)] w(2)] w(1)])
    with p(8) have "list_all text_or_missing (cells df ''Weather_Condition'')"
      by (rule mp)
    moreover have "cells d3 ''Weather_Condition'' = cells df ''Weather_Condition''"
      using frame_cells [OF f1 w(1)] frame_cells [OF f2 w(2)] frame_cells [OF f3 w(3)]
      by simp
    ultimately show "list_all text_or_missing (cells d3 ''Weather_Condition'')"
      by simp
  qed
  from categorize_weather_succeeds [OF this] obtain df' where
    s4: "categorize_weather d3 = Inr df'" ..
  from s1 s2 s3 s4 show ?thesis
    by (simp add: enrich_def)
qed

lemma require_columns_ok: "set bys \<subseteq> set (columns df) \<Longrightarrow> require_columns df bys = Inr ()"
  by (induction bys) simp_all

lemma groupby_size_succeeds:
  "set bys \<subseteq> set (columns df) \<Longrightarrow> \<exists>g. groupby_size bys name df = Inr g"
  by (simp add: groupby_size_def require_columns_ok)

lemma group_cells_numeric:
  assumes "\<not> list_ex non_numeric (cells df col)"
  shows "\<not> list_ex non_numeric (map (\<lambda>r. r col) (group_rows bys (rows df) k))"
  using assms by (auto simp: list_ex_iff cells_def group_rows_def)

lemma mean_succeeds: "\<not> list_ex non_numeric cs \<Longrightarrow> \<exists>m. mean cs = Inr m"
  by (simp add: mean_def)

lemma groupby_mean_succeeds:
  assumes "set bys \<subseteq> set (columns df)" and "col \<in> set (columns df)"
    and "\<not> list_ex non_numeric (cells df col)"
  shows "\<exists>g. groupby_mean bys col name df = Inr g"
proof -
  let ?f = "\<lambda>k. seq (mean (map (\<lambda>r. r col) (group_rows bys (rows df) k)))
                  (\<lambda>m. Inr ((key_row bys k)(name := m)))"
  have "list_all (\<lambda>k. \<exists>r. ?f k = Inr r) (group_keys bys (rows df))"
    unfolding list_all_iff
  proof
    fix k
    from mean_succeeds [OF group_cells_numeric [OF assms(3)]]
    obtain m where "mean (map (\<lambda>r. r col) (group_rows bys (rows df) k)) = Inr m" ..
    then show "\<exists>r. ?f k = Inr r"
      by simp
  qed
  from traverse_succeeds [OF this] obtain rs where
    "traverse ?f (group_keys bys (rows df)) = Inr rs" ..
  with assms(1,2) show ?thesis
    by (simp add: groupby_mean_def require_columns_ok column_def)
qed

lemma weather_agg_succeeds:
  assumes "''Weather_Category'' \<in> set (columns df)" and "''ID'' \<in> set (columns df)"
    and "''Severity'' \<in> set (columns df)"
    and "\<not> list_ex non_numeric (cells df ''Severity'')"
  shows "\<exists>g. weather_agg df = Inr g"
proof -
  let ?f = "\<lambda>k. let g = group_rows [''Weather_Category''] (rows df) k in
                       seq (mean (map (\<lambda>r. r ''Severity'') g)) (\<lambda>m.
                       Inr ((key_row [''Weather_Category''] k)
                              (''Accident_Count'' := count_notna (map (\<lambda>r. r ''ID'') g),
                               ''Avg_Severity'' := m)))"
  have "list_all (\<lambda>k. \<exists>r. ?f k = Inr r) (group_keys [''Weather_Category''] (rows df))"
    unfolding list_all_iff
  proof
    fix k
    from mean_succeeds [OF group_cells_numeric [OF assms(4)]]
    obtain m where
      "mean (map (\<lambda>r. r ''Severity'') (group_rows [''Weather_Category''] (rows df) k)) = Inr m" ..
    then show "\<exists>r. ?f k = Inr r"
      by (simp add: Let_def)
  qed
  from traverse_succeeds [OF this] obtain rs where
    "traverse ?f (group_keys [''Weather_Category''] (rows df)) = Inr rs" ..
  with assms(1,2,3) show ?thesis
    by (simp add: weather_agg_def column_def)
qed

lemma aggregate_succeeds:
  assumes cols: "''State'' \<in> set (columns df)" "''Severity'' \<in> set (columns df)"
      "''ID'' \<in> set (columns df)" "''Year'' \<in> set (columns df)" "''Month'' \<in> set (columns df)"
      "''Hour'' \<in> set (columns df)" "''DayOfWeek'' \<in> set (columns df)"
      "''Weekend'' \<in> set (columns df)"
    and numeric: "\<not> list_ex non_numeric (cells df ''Severity'')"
  shows "\<exists>ds. aggregate df = Inr ds"
proof -
  from groupby_size_succeeds [of "[''State'']" df "''Accident_Count''"] cols(1)
  obtain sc where sc: "groupby_size [''State''] ''Accident_Count'' df = Inr sc"
    by auto
  from groupby_mean_succeeds [of "[''State'']" df "''Severity''" "''Avg_Severity''"]
    cols(1,2) numeric
  obtain ss where ss: "groupby_mean [''State''] ''Severity'' ''Avg_Severity'' df = Inr ss"
    by auto
  have "\<exists>st. merge sc ss ''State'' = Inr st"
    by (simp add: merge_def groupby_size_Inr(1) [OF sc] groupby_mean_Inr(1) [OF ss])
  then obtain st where st: "merge sc ss ''State'' = Inr st" ..
  from groupby_size_succeeds [of "[''Year'', ''Month'']" df "''Accident_Count''"] cols(4,5)
  obtain tm where tm: "groupby_size [''Year'', ''Month''] ''Accident_Count'' df = Inr tm"
    by auto
  from groupby_size_succeeds [of "[''Hour'']" df "''Accident_Count''"] cols(6)
  obtain hr where hr: "groupby_size [''Hour''] ''Accident_Count'' df = Inr hr"
    by auto
  from groupby_size_succeeds [of "[''DayOfWeek'', ''Weekend'']" df "''Accident_Count''"] cols(7,8)
  obtain wd0 where wd0: "groupby_size [''DayOfWeek'', ''Weekend''] ''Accident_Count'' df = Inr wd0"
    by auto
  have "\<exists>wd. derive ''DayName'' ''DayOfWeek'' (\<lambda>cs. Inr (map day_name cs)) wd0 = Inr wd"
    by (simp add: derive_def column_def groupby_size_Inr(1) [OF wd0])
  then obtain wd where wd: "derive ''DayName'' ''DayOfWeek'' (\<lambda>cs. Inr (map day_name cs)) wd0 = Inr wd" ..
  have "\<exists>w. (if ''Weather_Category'' \<in> set (columns df) then weather_agg df else Inr DataFrame)
      = Inr w"
    using weather_agg_succeeds [OF _ cols(3) cols(2) numeric] by simp
  then obtain w where w: "(if ''Weather_Category'' \<in> set (columns df) then weather_agg df
      else Inr DataFrame) = Inr w" ..
  have "\<exists>c. (if ''City'' \<in> set (columns df)
         then seq (groupby_size [''State'', ''City''] ''Accident_Count'' df) (\<lambda>city.
              seq (sort_values_desc ''Accident_Count'' city) (\<lambda>city.
              Inr (head 50 city)))
         else Inr DataFrame) = Inr c"
  proof (cases "''City'' \<in> set (columns df)")
    case False
    then show ?thesis by simp
  next
    case True
    from groupby_size_succeeds [of "[''State'', ''City'']" df "''Accident_Count''"] cols(1) True
    obtain g where g: "groupby_size [''State'', ''City''] ''Accident_Count'' df = Inr g"
      by auto
    with True show ?thesis
      by (simp add: sort_values_desc_def column_def groupby_size_Inr(1) [OF g])
  qed
  then obtain c where c: "(if ''City'' \<in> set (columns df)
         then seq (groupby_size [''State'', ''City''] ''Accident_Count'' df) (\<lambda>city.
              seq (sort_values_desc ''Accident_Count'' city) (\<lambda>city.
              Inr (head 50 city)))
         else Inr DataFrame) = Inr c" ..
  show ?thesis
    unfolding aggregate_def by (simp only: sc ss st tm hr wd0 wd w c seq_Inr) blast
qed

lemma preprocess_data_succeeds:
  assumes wf: "well_formed parse df"
  shows "\<exists>ds. preprocess_data parse df = Inr ds"
proof -
  note p = well_formed_parts [OF wf]
  from enrich_succeeds [OF wf] obtain df' where e: "enrich parse df = Inr df'" ..
  note f = enrich_frame [OF e]
  from enrich_Inr [OF e] obtain d1 d2 d3 where
    s2: "extract_time_features d1 = Inr d2" and
    s3: "impute (numerical_cols d2) d2 = Inr d3" and
    s4: "categorize_weather d3 = Inr df'"
    by blast
  note f3 = conjunct1 [OF impute_Inr [OF s3 distinct_numerical_cols]]
  note f4 = categorize_weather_Inr [OF s4]
  note added = extract_time_features_Inr(4) [OF s2]
  have kept: "c \<in> set (columns df')" if "c \<in> set (columns d2)" for c
    by (rule frame_column_kept [OF f4 frame_column_kept [OF f3 that]])
  from added have "''Year'' \<in> set (columns d2)" "''Month'' \<in> set (columns d2)"
    "''Hour'' \<in> set (columns d2)" "''DayOfWeek'' \<in> set (columns d2)"
    "''Weekend'' \<in> set (columns d2)"
    by simp_all
  note time_cols = this [THEN kept]
  have base_cols: "''State'' \<in> set (columns df')" "''Severity'' \<in> set (columns df')"
    "''ID'' \<in> set (columns df')"
    by (rule frame_column_kept [OF f p(4)], rule frame_column_kept [OF f p(2)],
        rule frame_column_kept [OF f p(1)])
  have listed: "''Severity'' \<in> {''Severity'', ''Start_Lat'', ''Start_Lng''} \<or>
      ''Severity'' \<in> {''Temperature(F)'', ''Visibility(mi)''} \<and>
      ''Temperature(F)'' \<in> set (columns df)"
    by simp
  from enrich_imputed [OF e p(2) listed] obtain m where
    m: "median (cells df ''Severity'') = Inr m" and
    filled: "cells df' ''Severity'' = fillna m (cells df ''Severity'')"
    by (elim exE conjE)
  from p(7) p(2) have "\<not> list_ex non_numeric (cells df ''Severity'')"
    by simp
  from fillna_numeric [OF median_numeric [OF m] this] filled
  have numeric: "\<not> list_ex non_numeric (cells df' ''Severity'')"
    by simp
  from aggregate_succeeds [OF base_cols time_cols(1,2,3,4,5) numeric]
  obtain ds where "aggregate df' = Inr ds" ..
  with e show ?thesis
    by (simp add: preprocess_data_def)
qed

lemma rejected_timestamps_raise:
  assumes "''Start_Time'' \<in> set (columns df)"
    and "Option.is_none (parse (cells df ''Start_Time''))"
  shows "preprocess_data parse df = Inl ValueError"
proof -
  from assms(2) have "parse (cells df ''Start_Time'') = None"
    by (cases "parse (cells df ''Start_Time'')") simp_all
  then have "to_datetime parse (cells df ''Start_Time'') = Inl ValueError"
    by (simp add: to_datetime_def)
  with assms(1) have "derive ''Start_Time'' ''Start_Time'' (to_datetime parse) df = Inl ValueError"
    by (simp add: derive_def column_def)
  then show ?thesis
    by (simp add: preprocess_data_def enrich_def convert_timestamps_def)
qed

lemma preprocess_data_length:
  assumes "preprocess_data parse df = Inr ds"
  shows "length (rows (main_data ds)) = length (rows df)"
  by (rule frame_length [OF enrich_frame [OF conjunct1 [OF preprocess_data_Inr [OF assms]]]])

lemma load_small:
  "fs USER_PROVIDED_PATH = Some f \<Longrightarrow> st_size f \<le> 1000000000 \<Longrightarrow>
   load_raw_data choice g fs = Inr (table f)"
  by (simp add: load_raw_data_def)

lemma save_small:
  "length (rows (main_data ds)) \<le> 100000 \<Longrightarrow>
   save_processed_data choice g ds out =
     Inr (save_aggregates (items ds) (to_csv (main_data ds) ''accidents_processed.csv'' out))"
  by (simp add: save_processed_data_def)

lemma main_small:
  assumes "fs USER_PROVIDED_PATH = Some f" and "st_size f \<le> 1000000000"
    and "length (rows (table f)) \<le> 100000"
    and "preprocess_data parse (table f) = Inr ds"
  shows "main parse choice g fs out =
     Inr (save_aggregates (items ds) (to_csv (main_data ds) ''accidents_processed.csv'' out))"
proof -
  from preprocess_data_length [OF assms(4)] assms(3)
  have "length (rows (main_data ds)) \<le> 100000"
    by simp
  from save_small [OF this] load_small [where fs = fs and f = f, OF assms(1,2)] assms(4) show ?thesis
    by (simp add: main_def)
qed

text \<open>
  C7. Take an input file of at most 1 GB whose table has at most 100,000 rows.
  Whenever the run completes, the file \<open>accidents_processed.csv\<close> holds the
  enriched table, with exactly as many rows as the input, and no sample file
  is written. The run does complete when the input is in the schema of the
  accident data (\<open>well_formed\<close>), which asks that the parser of pandas accepts
  each timestamp column as a whole; a \<open>Start_Time\<close> column it rejects, such as
  one of mixed formats, ends the run with \<open>ValueError\<close> before a file is written
  (\<open>rejected_timestamps_raise\<close>).
\<close>

theorem processed_file_row_count:
  assumes "fs USER_PROVIDED_PATH = Some f" and "st_size f \<le> 1000000000"
    and "length (rows (table f)) \<le> 100000"
  shows "(\<forall>out'. main parse choice np_random fs out = Inr out' \<longrightarrow>
      (\<exists>d. out' (PROCESSED_DIR @ ''/accidents_processed.csv'') = Some d \<and>
           length (rows d) = length (rows (table f))) \<and>
      out' (PROCESSED_DIR @ ''/accidents_sample.csv'')
        = out (PROCESSED_DIR @ ''/accidents_sample.csv'')) \<and>
    (well_formed parse (table f) \<longrightarrow>
      (\<exists>out'. main parse choice np_random fs out = Inr out'))"
proof (intro conjI allI impI)
  fix out'
  assume run: "main parse choice np_random fs out = Inr out'"
  from run load_small [where fs = fs and f = f, OF assms(1,2)] obtain ds where
    ds: "preprocess_data parse (table f) = Inr ds"
    by (auto simp: main_def seq_Inr_iff)
  from main_small [where fs = fs and f = f, OF assms ds, of choice np_random out] run
  have out': "out' = save_aggregates (items ds)
      (to_csv (main_data ds) ''accidents_processed.csv'' out)"
    by simp
  have "out' (PROCESSED_DIR @ ''/accidents_processed.csv'') = Some (main_data ds)"
    unfolding out' save_aggregates_keeps_processed by (simp add: to_csv_def)
  with preprocess_data_length [OF ds]
  show "\<exists>d. out' (PROCESSED_DIR @ ''/accidents_processed.csv'') = Some d \<and>
      length (rows d) = length (rows (table f))"
    by simp
  show "out' (PROCESSED_DIR @ ''/accidents_sample.csv'')
      = out (PROCESSED_DIR @ ''/accidents_sample.csv'')"
    unfolding out' save_aggregates_keeps_sample by (simp add: to_csv_def)
next
  assume "well_formed parse (table f)"
  from preprocess_data_succeeds [OF this] obtain ds where
    "preprocess_data parse (table f) = Inr ds" ..
  from main_small [where fs = fs and f = f, OF assms this] show "\<exists>out'. main parse choice np_random fs out = Inr out'"
    by simp
qed

lemma example_well_formed: "well_formed example_parse example_table"
  by code_simp

theorem processed_file_row_count_witness:
  "[USER_PROVIDED_PATH \<mapsto> \<lparr>st_size = 1500, table = example_table\<rparr>] USER_PROVIDED_PATH
     = Some \<lparr>st_size = 1500, table = example_table\<rparr> \<and>
   st_size \<lparr>st_size = 1500, table = example_table\<rparr> \<le> 1000000000 \<and>
   length (rows (table \<lparr>st_size = 1500, table = example_table\<rparr>)) = 3 \<and>
   well_formed example_parse (table \<lparr>st_size = 1500, table = example_table\<rparr>) \<and>
   (\<exists>out' d.
      main example_parse (\<lambda>gen pop k. [0..<k]) 0
        [USER_PROVIDED_PATH \<mapsto> \<lparr>st_size = 1500, table = example_table\<rparr>] Map.empty = Inr out' \<and>
      out' (PROCESSED_DIR @ ''/accidents_processed.csv'') = Some d \<and>
      length (rows d) = 3)"
proof -
  let ?f = "\<lparr>st_size = 1500, table = example_table\<rparr>"
  let ?fs = "[USER_PROVIDED_PATH \<mapsto> ?f]"
  have a: "?fs USER_PROVIDED_PATH = Some ?f"
    by simp
  have b: "st_size ?f \<le> 1000000000"
    by simp
  have len: "length (rows (table ?f)) = 3"
    by (simp add: example_table_def example_rows_def)
  then have c: "length (rows (table ?f)) \<le> 100000"
    by simp
  have wf: "well_formed example_parse (table ?f)"
    using example_well_formed by simp
  note t = processed_file_row_count [where fs = ?fs and f = ?f and parse = example_parse
      and choice = "\<lambda>gen pop k. [0..<k]" and np_random = 0 and out = Map.empty, OF a b c]
  from mp [OF conjunct2 [OF t] wf] obtain out' where
    run: "main example_parse (\<lambda>gen pop k. [0..<k]) 0 ?fs Map.empty = Inr out'" ..
  from conjunct1 [OF t] run obtain d where
    "out' (PROCESSED_DIR @ ''/accidents_processed.csv'') = Some d"
    "length (rows d) = length (rows (table ?f))"
    by blast
  with run len have "\<exists>out' d.
      main example_parse (\<lambda>gen pop k. [0..<k]) 0 ?fs Map.empty = Inr out' \<and>
      out' (PROCESSED_DIR @ ''/accidents_processed.csv'') = Some d \<and>
      length (rows d) = 3"
    by (intro exI [of _ out'] exI [of _ d]) simp
  with a b len wf show ?thesis
    by (intro conjI)
qed

end
